theory Spec2Isabelle
  imports Complex_Main "HOL-Library.Word" "HOL-Library.Sublist"
begin

section \<open>JavaScript strings\<close>

text \<open>
  A JavaScript string is a sequence of UTF-16 code units, and \<^verbatim>\<open>.length\<close> counts
  code units. ASCII literals of the source are written with \<open>js\<close>.
\<close>

type_synonym code_unit = "16 word"
type_synonym jsstring = "code_unit list"

definition js :: "string \<Rightarrow> jsstring" where
  "js cs = map (\<lambda>c. of_nat (of_char c)) cs"

text \<open>The class \<^verbatim>\<open>\s\<close> of a regular expression, which is also what \<^verbatim>\<open>trim()\<close> strips:
  the WhiteSpace and LineTerminator code points.\<close>

definition isWhiteSpace :: "code_unit \<Rightarrow> bool" where
  "isWhiteSpace c =
     (c \<in> {0x09, 0x0A, 0x0B, 0x0C, 0x0D, 0x20, 0xA0, 0x1680, 0x2028, 0x2029, 0x202F, 0x205F,
            0x3000, 0xFEFF}
      \<or> (0x2000 \<le> c \<and> c \<le> 0x200A))"

text \<open>The class \<^verbatim>\<open>[.?!]\<close>.\<close>

definition isTerminator :: "code_unit \<Rightarrow> bool" where
  "isTerminator c = (c = 0x2E \<or> c = 0x3F \<or> c = 0x21)"

definition trim :: "jsstring \<Rightarrow> jsstring" where
  "trim s = rev (dropWhile isWhiteSpace (rev (dropWhile isWhiteSpace s)))"

text \<open>\<^verbatim>\<open>xs.join(' ')\<close>\<close>

fun joinWithSpace :: "jsstring list \<Rightarrow> jsstring" where
  "joinWithSpace [] = []"
| "joinWithSpace [s] = s"
| "joinWithSpace (s # t # ss) = s @ js '' '' @ joinWithSpace (t # ss)"

text \<open>\<^verbatim>\<open>String(n)\<close> for a non-negative integer, as in \<^verbatim>\<open>`${res.status}`\<close> and \<^verbatim>\<open>`${i+1}`\<close>.\<close>

fun decimal :: "nat \<Rightarrow> jsstring" where
  "decimal n =
     (if n < 10 then [of_nat (48 + n)] else decimal (n div 10) @ [of_nat (48 + n mod 10)])"

text \<open>
  \<^verbatim>\<open>toLowerCase()\<close>. The ASCII capitals are mapped to their small letters. Outside ASCII only
  two code units have a lower case inside ASCII: U+212A (Kelvin sign) becomes \<^verbatim>\<open>k\<close> and
  U+0130 becomes \<^verbatim>\<open>i\<close> followed by U+0307. Every other code unit above U+007F is left as
  it is here. The runtime may replace such a letter by other code units above U+007F, none
  of them white space, and it leaves white space alone; the regular expressions of this
  program (ASCII letters, \<^verbatim>\<open>\w\<close>, \<^verbatim>\<open>\s\<close>, \<^verbatim>\<open>\b\<close>) cannot tell the two results apart, so
  every test made on a lower-cased string comes out as it does at run time.
\<close>

definition lowerUnit :: "code_unit \<Rightarrow> jsstring" where
  "lowerUnit c =
     (if 0x41 \<le> c \<and> c \<le> 0x5A then [c + 0x20]
      else if c = 0x212A then [0x6B]
      else if c = 0x0130 then [0x69, 0x0307]
      else [c])"

definition toLowerCase :: "jsstring \<Rightarrow> jsstring" where
  "toLowerCase s = concat (map lowerUnit s)"

text \<open>The class \<^verbatim>\<open>\w\<close>: \<^verbatim>\<open>[A-Za-z0-9_]\<close>.\<close>

definition isWordChar :: "code_unit \<Rightarrow> bool" where
  "isWordChar c =
     ((0x41 \<le> c \<and> c \<le> 0x5A) \<or> (0x61 \<le> c \<and> c \<le> 0x7A) \<or> (0x30 \<le> c \<and> c \<le> 0x39)
      \<or> c = 0x5F)"

section \<open>JavaScript values\<close>

text \<open>
  A number is a double: \<open>Finite q\<close> is the finite double whose exact value is the
  rational \<open>q\<close>.
\<close>

datatype js_number = NaN | PosInfinity | NegInfinity | Finite rat

text \<open>
  The values \<^verbatim>\<open>JSON.parse\<close> produces (an object holds one pair for each of its keys).
  \<^verbatim>\<open>undefined\<close> is \<open>None\<close> of \<open>json option\<close>.
\<close>

datatype json =
    JNull
  | JBool bool
  | JNumber js_number
  | JString jsstring
  | JArray "json list"
  | JObject "(jsstring \<times> json) list"

text \<open>An exception value: the name of its class and its message.\<close>

datatype js_error = JsError jsstring jsstring

text \<open>\<^verbatim>\<open>new Error(msg)\<close>\<close>

definition newError :: "jsstring \<Rightarrow> js_error" where
  "newError msg = JsError (js ''Error'') msg"

text \<open>Calling a property that is not a function. The message is the engine's own; it only
  ever reaches the log.\<close>

definition notAFunction :: "jsstring \<Rightarrow> js_error" where
  "notAFunction what = JsError (js ''TypeError'') (what @ js '' is not a function'')"

text \<open>\<^verbatim>\<open>String(err)\<close>, that is \<^verbatim>\<open>Error.prototype.toString\<close>.\<close>

definition errorToString :: "js_error \<Rightarrow> jsstring" where
  "errorToString e =
     (case e of JsError name msg \<Rightarrow>
        if name = [] then msg else if msg = [] then name else name @ js '': '' @ msg)"

text \<open>What \<^verbatim>\<open>!v\<close>, \<^verbatim>\<open>v || d\<close>, \<^verbatim>\<open>v ? a : b\<close> and \<^verbatim>\<open>if (v)\<close> test.\<close>

fun truthy :: "json option \<Rightarrow> bool" where
  "truthy None = False"
| "truthy (Some JNull) = False"
| "truthy (Some (JBool b)) = b"
| "truthy (Some (JNumber n)) = (n \<noteq> NaN \<and> n \<noteq> Finite 0)"
| "truthy (Some (JString s)) = (s \<noteq> [])"
| "truthy (Some (JArray xs)) = True"
| "truthy (Some (JObject kvs)) = True"

text \<open>
  Reading a property by name: \<^verbatim>\<open>v?.k\<close>, and \<^verbatim>\<open>const { k } = v\<close> for a \<open>v\<close> that is not
  \<^verbatim>\<open>null\<close> or \<^verbatim>\<open>undefined\<close>. The names this program reads (\<^verbatim>\<open>candidates\<close>, \<^verbatim>\<open>content\<close>,
  \<^verbatim>\<open>parts\<close>, \<^verbatim>\<open>text\<close>, \<^verbatim>\<open>message\<close>, \<^verbatim>\<open>code\<close>, \<^verbatim>\<open>mode\<close>, \<^verbatim>\<open>language\<close>, \<^verbatim>\<open>model\<close>) are
  properties of no array, string, number or boolean, so only an object can hold them.
\<close>

definition getProp :: "jsstring \<Rightarrow> json option \<Rightarrow> json option" where
  "getProp k v = (case v of Some (JObject kvs) \<Rightarrow> map_of kvs k | _ \<Rightarrow> None)"

text \<open>\<^verbatim>\<open>v?.[0]\<close>\<close>

definition getIndex0 :: "json option \<Rightarrow> json option" where
  "getIndex0 v =
     (case v of
        Some (JArray xs) \<Rightarrow> (case xs of [] \<Rightarrow> None | x # _ \<Rightarrow> Some x)
      | Some (JString s) \<Rightarrow> (case s of [] \<Rightarrow> None | c # _ \<Rightarrow> Some (JString [c]))
      | Some (JObject kvs) \<Rightarrow> map_of kvs (js ''0'')
      | _ \<Rightarrow> None)"

section \<open>Environment and platform\<close>

text \<open>The variables of \<^verbatim>\<open>process.env\<close> that the servers read: a string, or not set.\<close>

record env =
  GEMINI_API_KEY :: "jsstring option"
  GEMINI_MAX_OUTPUT_TOKENS :: "jsstring option"

definition envTruthy :: "jsstring option \<Rightarrow> bool" where
  "envTruthy v = truthy (map_option JString v)"

text \<open>The request that \<^verbatim>\<open>callGemini\<close> hands to \<^verbatim>\<open>fetch\<close>. The body is the object given
  to \<^verbatim>\<open>JSON.stringify\<close>; a property that the object literal does not have is \<open>None\<close>.\<close>

record part =
  part_text :: jsstring

record content =
  role :: jsstring
  parts :: "part list"

record generation_config =
  maxOutputTokens :: "js_number option"
  temperature :: "js_number option"

record request_body =
  contents :: "content list"
  generationConfig :: generation_config

record fetch_request =
  url :: jsstring
  http_method :: jsstring
  request_headers :: "(jsstring \<times> jsstring option) list"
  body :: request_body

text \<open>What \<^verbatim>\<open>fetch\<close> gives back: the promise is rejected, or it resolves to a response
  with its \<^verbatim>\<open>status\<close> and the results of \<^verbatim>\<open>res.text()\<close> and \<^verbatim>\<open>res.json()\<close>, each of which
  can be rejected too.\<close>

record fetch_response =
  status :: nat
  res_text :: "js_error + jsstring"
  res_json :: "js_error + json"

datatype fetch_outcome = Rejected js_error | Resolved fetch_response

text \<open>\<^verbatim>\<open>res.ok\<close>\<close>

definition ok :: "fetch_response \<Rightarrow> bool" where
  "ok res = (200 \<le> status res \<and> status res \<le> 299)"

text \<open>
  The platform outside the repository: the upstream service behind \<^verbatim>\<open>fetch\<close>,
  \<^verbatim>\<open>JSON.stringify\<close>, \<^verbatim>\<open>parseInt(_, 10)\<close>, and the conversion to a string that a template
  literal applies to a value that is not a string (it throws for an object whose
  \<^verbatim>\<open>toString\<close> is not callable).
\<close>

record runtime =
  fetch :: "fetch_request \<Rightarrow> fetch_outcome"
  JSON_stringify :: "json \<Rightarrow> jsstring"
  parseInt10 :: "jsstring \<Rightarrow> js_number"
  ToString :: "json \<Rightarrow> js_error + jsstring"

text \<open>\<^verbatim>\<open>`${v}`\<close>\<close>

definition interpolate :: "runtime \<Rightarrow> json \<Rightarrow> js_error + jsstring" where
  "interpolate rt v = (case v of JString s \<Rightarrow> Inr s | _ \<Rightarrow> ToString rt v)"

text \<open>\<^verbatim>\<open>encodeURIComponent\<close> on code units below U+0080, which is all the program passes to
  it: the unreserved characters stay, every other one becomes \<^verbatim>\<open>%XX\<close>.\<close>

definition isUnreserved :: "code_unit \<Rightarrow> bool" where
  "isUnreserved c = (isWordChar c \<or> c \<in> set (js ''-.!~*'()''))"

definition hexDigit :: "code_unit \<Rightarrow> code_unit" where
  "hexDigit d = (if d < 10 then 0x30 + d else 0x41 + (d - 10))"

definition encodeURIComponent :: "jsstring \<Rightarrow> jsstring" where
  "encodeURIComponent s =
     concat (map (\<lambda>c. if isUnreserved c then [c]
                       else [0x25, hexDigit (c div 16), hexDigit (c mod 16)]) s)"

section \<open>Upstream Client\<close>

text \<open>
  \<^verbatim>\<open>callGemini\<close>, with the list of the requests it sent. The two files differ only in the
  \<^verbatim>\<open>generationConfig\<close> of the body, so the function that builds it is a parameter here.
\<close>

definition geminiRequest :: "env \<Rightarrow> generation_config \<Rightarrow> jsstring \<Rightarrow> fetch_request" where
  "geminiRequest env config promptText =
     (let model = js ''gemini-2.5-flash'' in
      \<lparr> url = js ''https://generativelanguage.googleapis.com/v1beta/models/''
                @ encodeURIComponent model @ js '':generateContent'',
        http_method = js ''POST'',
        request_headers =
          [(js ''Content-Type'', Some (js ''application/json'')),
           (js ''x-goog-api-key'', GEMINI_API_KEY env)],
        body = \<lparr> contents = [\<lparr> role = js ''user'', parts = [\<lparr> part_text = promptText \<rparr>] \<rparr>],
                 generationConfig = config \<rparr> \<rparr>)"

text \<open>\<^verbatim>\<open>data?.candidates?.[0]\<close> and then \<^verbatim>\<open>candidate?.content?.parts?.[0]?.text\<close>\<close>

definition partTextOf :: "json \<Rightarrow> json option" where
  "partTextOf data =
     (let candidate = getIndex0 (getProp (js ''candidates'') (Some data))
      in getProp (js ''text'')
           (getIndex0 (getProp (js ''parts'') (getProp (js ''content'') candidate))))"

text \<open>What \<^verbatim>\<open>callGemini\<close> returns for the parsed body \<open>data\<close>.\<close>

definition extractText :: "runtime \<Rightarrow> json \<Rightarrow> json" where
  "extractText rt data =
     (let partText = partTextOf data
      in if truthy partText then the partText else JString (JSON_stringify rt data))"

definition callGeminiWith ::
  "(env \<Rightarrow> runtime \<Rightarrow> generation_config) \<Rightarrow> env \<Rightarrow> runtime \<Rightarrow> jsstring
     \<Rightarrow> (js_error + json) \<times> fetch_request list" where
  "callGeminiWith config env rt promptText =
     (let request = geminiRequest env (config env rt) promptText in
      (case fetch rt request of
         Rejected err \<Rightarrow> Inl err
       | Resolved res \<Rightarrow>
           if \<not> ok res then
             (case res_text res of
                Inl err \<Rightarrow> Inl err
              | Inr errorText \<Rightarrow>
                  Inl (newError (js ''Gemini API error '' @ decimal (status res) @ js '': ''
                                 @ errorText)))
           else
             (case res_json res of
                Inl err \<Rightarrow> Inl err
              | Inr data \<Rightarrow> Inr (extractText rt data)),
       [request]))"

text \<open>The generation configuration of the server with the three routes. The literal
  \<^verbatim>\<open>0.2\<close> is the double 3602879701896397 / 2^54.\<close>

definition generationConfigDefaults :: "env \<Rightarrow> runtime \<Rightarrow> generation_config" where
  "generationConfigDefaults env rt =
     (let defaultMax =
            (if envTruthy (GEMINI_MAX_OUTPUT_TOKENS env)
             then parseInt10 rt (the (GEMINI_MAX_OUTPUT_TOKENS env))
             else Finite 512)
      in \<lparr> maxOutputTokens = Some defaultMax,
           temperature = Some (Finite (3602879701896397 / 18014398509481984)) \<rparr>)"

definition callGemini ::
  "env \<Rightarrow> runtime \<Rightarrow> jsstring \<Rightarrow> (js_error + json) \<times> fetch_request list" where
  "callGemini = callGeminiWith generationConfigDefaults"

text \<open>\<^verbatim>\<open>callGemini\<close> of \<^verbatim>\<open>src/server.js\<close>: the object literal of \<^verbatim>\<open>generationConfig\<close> is
  empty.\<close>

definition generationConfigEmpty :: "env \<Rightarrow> runtime \<Rightarrow> generation_config" where
  "generationConfigEmpty env rt = \<lparr> maxOutputTokens = None, temperature = None \<rparr>"

definition callGemini_server_js ::
  "env \<Rightarrow> runtime \<Rightarrow> jsstring \<Rightarrow> (js_error + json) \<times> fetch_request list" where
  "callGemini_server_js = callGeminiWith generationConfigEmpty"

section \<open>Chunking Splitter\<close>

text \<open>
  \<^verbatim>\<open>explanation.split(/(?<=[.?!])\s+/)\<close>. The first argument is the piece collected since
  the last split point, the second the text still to scan. A separator matches where a
  white-space code unit follows a terminator; \<^verbatim>\<open>\s+\<close> is greedy, so it takes the whole
  white-space run. Right after a separator the collected piece is empty and the code unit
  before the scan position is white space, so the lookbehind fails there, as it does at
  position 0; that is the test \<open>cur \<noteq> []\<close>. The piece after the last separator is always
  pushed, also when it is empty.
\<close>

function splitSentences :: "jsstring \<Rightarrow> jsstring \<Rightarrow> jsstring list" where
  "splitSentences cur [] = [cur]"
| "splitSentences cur (c # cs) =
     (if isWhiteSpace c \<and> cur \<noteq> [] \<and> isTerminator (last cur)
      then cur # splitSentences [] (dropWhile isWhiteSpace cs)
      else splitSentences (cur @ [c]) cs)"
  by pat_completeness auto
termination
  by (relation "measure (\<lambda>(cur, rest). length rest)")
     (auto simp: less_Suc_eq_le length_dropWhile_le)

definition maxChunk :: nat where
  "maxChunk = 240"

text \<open>One iteration of the loop over the sentences; the state is \<open>(buf, chunks)\<close>.\<close>

definition chunkStep :: "jsstring \<times> jsstring list \<Rightarrow> jsstring \<Rightarrow> jsstring \<times> jsstring list" where
  "chunkStep st s =
     (case st of (buf, chunks) \<Rightarrow>
        if length (buf @ js '' '' @ s) > maxChunk then
          (if buf \<noteq> [] then (s, chunks @ [trim buf]) else ([], chunks @ [trim s]))
        else ((if buf \<noteq> [] then buf @ js '' '' @ s else s), chunks))"

text \<open>The splitter of \<^verbatim>\<open>POST /api/explain/stream\<close>, from the split to the last flush.\<close>

definition chunkText :: "jsstring \<Rightarrow> jsstring list" where
  "chunkText explanation =
     (let sentences = splitSentences [] explanation in
      case foldl chunkStep ([], []) sentences of
        (buf, chunks) \<Rightarrow> if buf \<noteq> [] then chunks @ [trim buf] else chunks)"

section \<open>Local Fallback Responder\<close>

text \<open>
  \<^verbatim>\<open>/\b(k1|k2|...)\b/.test(msg)\<close>. \<open>prev\<close> is the code unit in front of the position
  tried (\<open>None\<close> at the start of the string); \<^verbatim>\<open>\b\<close> holds between two positions of
  which exactly one is a word character, the ends of the string counting as none.
\<close>

definition optIsWord :: "code_unit option \<Rightarrow> bool" where
  "optIsWord c = (case c of None \<Rightarrow> False | Some x \<Rightarrow> isWordChar x)"

definition wordBoundary :: "code_unit option \<Rightarrow> code_unit option \<Rightarrow> bool" where
  "wordBoundary prev next = (optIsWord prev \<noteq> optIsWord next)"

definition headOpt :: "jsstring \<Rightarrow> code_unit option" where
  "headOpt s = (case s of [] \<Rightarrow> None | c # _ \<Rightarrow> Some c)"

definition keywordAt :: "code_unit option \<Rightarrow> jsstring \<Rightarrow> jsstring \<Rightarrow> bool" where
  "keywordAt prev rest k =
     (take (length k) rest = k
      \<and> wordBoundary (if k = [] then prev else Some (last k)) (headOpt (drop (length k) rest)))"

definition alternativesAt :: "jsstring list \<Rightarrow> code_unit option \<Rightarrow> jsstring \<Rightarrow> bool" where
  "alternativesAt ks prev rest =
     (wordBoundary prev (headOpt rest) \<and> list_ex (keywordAt prev rest) ks)"

fun testKeywords :: "jsstring list \<Rightarrow> code_unit option \<Rightarrow> jsstring \<Rightarrow> bool" where
  "testKeywords ks prev [] = alternativesAt ks prev []"
| "testKeywords ks prev (c # cs) =
     (alternativesAt ks prev (c # cs) \<or> testKeywords ks (Some c) cs)"

definition workoutReply :: jsstring where
  "workoutReply = js (''Sample full-body routine (local fallback):\<newline>- Squats 3x10\<newline>''
     @ ''- Push-ups 3x8-12\<newline>- Rows 3x8-12\<newline>- Plank 3x30s\<newline>''
     @ ''Do this 3x/week. (This is the local fallback - enable Gemini API for richer replies.)'')"

definition dietReply :: jsstring where
  "dietReply = js (''Local diet tip: prioritize protein (1.6-2.2 g/kg), eat whole foods, ''
     @ ''and reduce processed sugars.'')"

definition catchAllReply :: jsstring where
  "catchAllReply = js ''I didn't understand. Try asking '' @ [0x22]
     @ js ''Give me a 30 minute full-body home workout'' @ [0x22] @ js '' or '' @ [0x22]
     @ js ''How many calories should I eat to lose weight?'' @ [0x22]"

text \<open>The alternatives of the three regular expressions.\<close>

definition workoutWords :: "jsstring list" where
  "workoutWords = [js ''workout'', js ''exercise'', js ''plan'', js ''routine'']"

definition dietWords :: "jsstring list" where
  "dietWords = [js ''diet'', js ''calorie'', js ''protein'', js ''meal'']"

definition greetingWords :: "jsstring list" where
  "greetingWords = [js ''hi'', js ''hello'', js ''hey'']"

text \<open>\<^verbatim>\<open>localFallback\<close>. The two files differ only in the greeting, which is a parameter
  here. A message that is truthy and not a string has no \<^verbatim>\<open>toLowerCase\<close>, and the call
  throws.\<close>

definition localFallbackWith :: "jsstring \<Rightarrow> json option \<Rightarrow> js_error + jsstring" where
  "localFallbackWith greeting message =
     (case (if truthy message then message else Some (JString [])) of
        Some (JString m) \<Rightarrow>
          (let msg = toLowerCase m in
           if testKeywords workoutWords None msg then Inr workoutReply
           else if testKeywords dietWords None msg then Inr dietReply
           else if testKeywords greetingWords None msg then Inr greeting
           else Inr catchAllReply)
      | _ \<Rightarrow> Inl (notAFunction (js ''toLowerCase'')))"

text \<open>In the server with the three routes the greeting has an em dash, U+2014.\<close>

definition greetingReply :: jsstring where
  "greetingReply = js ''Hey '' @ [0x2014]
     @ js '' I'm FitBuddy. Ask me for workout plans, diet tips, or motivation.''"

definition localFallback :: "json option \<Rightarrow> js_error + jsstring" where
  "localFallback = localFallbackWith greetingReply"

text \<open>In \<^verbatim>\<open>src/server.js\<close> the file holds U+00E2 U+20AC U+201D where the em dash was.\<close>

definition greetingReply_server_js :: jsstring where
  "greetingReply_server_js = js ''Hey '' @ [0xE2, 0x20AC, 0x201D]
     @ js '' I'm FitBuddy. Ask me for workout plans, diet tips, or motivation.''"

definition localFallback_server_js :: "json option \<Rightarrow> js_error + jsstring" where
  "localFallback_server_js = localFallbackWith greetingReply_server_js"

section \<open>The local heuristic explainer\<close>

text \<open>
  The regular expressions of \<^verbatim>\<open>naiveExplain\<close> are sequences of literals and of repeated
  character classes. A piece takes the input and gives what is left after it, or fails.
  A repetition takes the longest run: in each expression what follows a repetition
  cannot start with a member of its class, so no shorter run could match.
\<close>

type_synonym matcher = "jsstring \<Rightarrow> jsstring option"

definition lit :: "jsstring \<Rightarrow> matcher" where
  "lit p s = (if take (length p) s = p then Some (drop (length p) s) else None)"

text \<open>\<^verbatim>\<open>\s*\<close> and \<^verbatim>\<open>\s+\<close>, \<^verbatim>\<open>\w+\<close>\<close>

definition many :: "(code_unit \<Rightarrow> bool) \<Rightarrow> matcher" where
  "many P s = Some (dropWhile P s)"

definition many1 :: "(code_unit \<Rightarrow> bool) \<Rightarrow> matcher" where
  "many1 P s = (if s \<noteq> [] \<and> P (hd s) then Some (dropWhile P s) else None)"

text \<open>\<^verbatim>\<open>\b\<close> behind a word character\<close>

definition wordEnd :: matcher where
  "wordEnd s = (if s = [] \<or> \<not> isWordChar (hd s) then Some s else None)"

fun seqRe :: "matcher list \<Rightarrow> matcher" where
  "seqRe [] s = Some s"
| "seqRe (m # ms) s = (case m s of None \<Rightarrow> None | Some r \<Rightarrow> seqRe ms r)"

text \<open>\<^verbatim>\<open>/^.../.test(s)\<close> and \<^verbatim>\<open>/.../.test(s)\<close>\<close>

definition testAtStart :: "matcher list \<Rightarrow> jsstring \<Rightarrow> bool" where
  "testAtStart ms s = (seqRe ms s \<noteq> None)"

fun testAnywhere :: "matcher list \<Rightarrow> jsstring \<Rightarrow> bool" where
  "testAnywhere ms [] = testAtStart ms []"
| "testAnywhere ms (c # cs) = (testAtStart ms (c # cs) \<or> testAnywhere ms cs)"

text \<open>\<^verbatim>\<open>codeStr.split(/\r?\n/)\<close>\<close>

fun splitLines :: "jsstring \<Rightarrow> jsstring \<Rightarrow> jsstring list" where
  "splitLines cur [] = [cur]"
| "splitLines cur [c] = (if c = 0x0A then [cur, []] else [cur @ [c]])"
| "splitLines cur (c # d # cs) =
     (if c = 0x0A then cur # splitLines [] (d # cs)
      else if c = 0x0D \<and> d = 0x0A then cur # splitLines [] cs
      else splitLines (cur @ [c]) (d # cs))"

text \<open>\<^verbatim>\<open>l.replace(/\t/g, '  ')\<close>\<close>

definition expandTabs :: "jsstring \<Rightarrow> jsstring" where
  "expandTabs l = concat (map (\<lambda>c. if c = 0x09 then js ''  '' else [c]) l)"

text \<open>\<^verbatim>\<open>xs.join(sep)\<close>\<close>

fun joinWith :: "jsstring \<Rightarrow> jsstring list \<Rightarrow> jsstring" where
  "joinWith sep [] = []"
| "joinWith sep [s] = s"
| "joinWith sep (s # t # ss) = s @ sep @ joinWith sep (t # ss)"

text \<open>\<^verbatim>\<open>t.replace(/^#|^\/\//, '')\<close>\<close>

definition stripCommentMark :: "jsstring \<Rightarrow> jsstring" where
  "stripCommentMark t =
     (case lit (js ''#'') t of
        Some r \<Rightarrow> r
      | None \<Rightarrow> (case lit (js ''//'') t of Some r \<Rightarrow> r | None \<Rightarrow> t))"

text \<open>The chain of tests on one line of the line-by-line mode.\<close>

definition explainLine :: "jsstring \<Rightarrow> jsstring \<Rightarrow> jsstring" where
  "explainLine raw t =
     (let ws = many isWhiteSpace; ws1 = many1 isWhiteSpace; word = many1 isWordChar in
      if testAtStart [ws, lit (js ''#'')] raw \<or> testAtStart [lit (js ''//'')] raw
      then js ''Comment: '' @ trim (stripCommentMark t)
      else if testAtStart [ws, lit (js ''console.log('')] t \<or> testAtStart [ws, lit (js ''print('')] t
      then js ''Prints a value to the console.''
      else if testAtStart [ws, lit (js ''return''), wordEnd] t
      then js ''Returns a value from the current function.''
      else if testAtStart [ws, lit (js ''def''), ws1, word, ws, lit (js ''('')] t
              \<or> testAtStart [ws, lit (js ''function''), ws1, word] t
      then js ''Defines a function.''
      else if testAtStart [ws, lit (js ''class''), ws1, word] t
      then js ''Defines a class/type.''
      else if testAtStart [ws, lit (js ''for''), ws1] t \<or> testAtStart [ws, lit (js ''while''), ws1] t
      then js ''Loop: iterates over items or condition.''
      else if testAtStart [ws, lit (js ''if''), ws1] t \<or> testAtStart [ws, lit (js ''else''), wordEnd] t
      then js ''Conditional branch.''
      else if testAtStart [ws, lit (js ''import''), wordEnd] t
              \<or> testAtStart [ws, lit (js ''from''), wordEnd] t
      then js ''Imports external module(s).''
      else js ''Executes: '' @ t)"

text \<open>The loop of the line-by-line mode, from index \<open>i\<close> on; U+2192 is the arrow.\<close>

fun explainLines :: "nat \<Rightarrow> jsstring list \<Rightarrow> jsstring list" where
  "explainLines i [] = []"
| "explainLines i (raw # rest) =
     (let t = trim raw in
      if t = [] then explainLines (i + 1) rest
      else (js ''Line '' @ decimal (i + 1) @ js '': '' @ t @ js ''\<newline>  '' @ [0x2192] @ js '' ''
            @ explainLine raw t) # explainLines (i + 1) rest)"

text \<open>\<^verbatim>\<open>lines.slice(0, 6).map((l, i) => `L${i+1}: ${l.trim()}`)\<close>\<close>

fun docLines :: "nat \<Rightarrow> jsstring list \<Rightarrow> jsstring list" where
  "docLines i [] = []"
| "docLines i (l # rest) = (js ''L'' @ decimal (i + 1) @ js '': '' @ trim l) # docLines (i + 1) rest"

text \<open>\<^verbatim>\<open>naiveExplain\<close>; U+2014 is the em dash of the last summary. A \<^verbatim>\<open>codeStr\<close> that is
  not a string has no \<^verbatim>\<open>split\<close>, and the call throws.\<close>

definition naiveExplain :: "json \<Rightarrow> json \<Rightarrow> js_error + jsstring" where
  "naiveExplain codeStr mode =
     (case codeStr of
        JString str \<Rightarrow>
          (let lines = map expandTabs (splitLines [] str);
               ws1 = many1 isWhiteSpace; word = many1 isWordChar in
           if mode = JString (js ''summary'') then
             (let joined = toLowerCase str in
              if testAnywhere [lit (js ''print('')] joined
              then Inr (js ''This snippet prints output to the console.'')
              else if testAnywhere [lit (js ''def''), ws1, word, lit (js ''('')] joined
              then Inr (js ''This snippet defines one or more functions.'')
              else if testAnywhere [lit (js ''class''), ws1, word] joined
              then Inr (js ''This snippet defines a class.'')
              else if testAnywhere [lit (js ''import''), ws1] joined
              then Inr (js ''This snippet imports external modules.'')
              else Inr (js ''Small code snippet '' @ [0x2014] @ js '' general purpose. Try '' @ [0x22]
                        @ js ''Line-by-line'' @ [0x22] @ js '' mode for more detail.''))
           else if mode = JString (js ''doc'') then
             Inr (js ''Description:\<newline>'' @ joinWith (js ''\<newline>'') (docLines 0 (take 6 lines))
                  @ js ''\<newline>\<newline>(Use a real LLM for fuller documentation.)'')
           else if mode = JString (js ''refactor'') then
             Inr (js (''Refactor suggestion:\<newline>- Consider smaller functions, clearer variable ''
                  @ ''names, and adding comments.\<newline>- Run a linter or formatter ''
                  @ ''(e.g., Prettier/Black) to normalize style.''))
           else Inr (joinWith (js ''\<newline>\<newline>'') (explainLines 0 lines)))
      | _ \<Rightarrow> Inl (notAFunction (js ''codeStr.split'')))"

section \<open>Route handlers\<close>

text \<open>
  What a handler has sent when it is done: the status (200 unless \<^verbatim>\<open>res.status\<close> set
  another), the headers it set with \<^verbatim>\<open>res.setHeader\<close>, and either the object given to
  \<^verbatim>\<open>res.json\<close> or the strings given to \<^verbatim>\<open>res.write\<close> and \<^verbatim>\<open>res.end\<close>, in order. A handler
  is a function of the environment, the platform and \<^verbatim>\<open>req.body\<close>, and gives its response
  together with the requests it sent upstream.
\<close>

datatype payload = JsonPayload json | TextPayload "jsstring list"

record http_response =
  statusCode :: nat
  headers :: "(jsstring \<times> jsstring) list"
  payload :: payload

definition jsonResponse :: "nat \<Rightarrow> (jsstring \<times> json) list \<Rightarrow> http_response" where
  "jsonResponse code obj =
     \<lparr> statusCode = code, headers = [], payload = JsonPayload (JObject obj) \<rparr>"

text \<open>\<^verbatim>\<open>const { k = d } = ...\<close>: the default stands in for \<^verbatim>\<open>undefined\<close> only.\<close>

definition withDefault :: "jsstring \<Rightarrow> json option \<Rightarrow> json" where
  "withDefault d v = (case v of None \<Rightarrow> JString d | Some x \<Rightarrow> x)"

text \<open>\<^verbatim>\<open>req.body || {}\<close>\<close>

definition bodyOrEmpty :: "json option \<Rightarrow> json option" where
  "bodyOrEmpty reqBody = (if truthy reqBody then reqBody else Some (JObject []))"

text \<open>The responses to a request without its required field, and the response of
  \<^verbatim>\<open>POST /api/explain\<close> when no key is configured.\<close>

definition noMessageResponse :: http_response where
  "noMessageResponse = jsonResponse 400 [(js ''error'', JString (js ''No message provided''))]"

definition noCodeResponse :: http_response where
  "noCodeResponse = jsonResponse 400 [(js ''error'', JString (js ''No code provided''))]"

definition keyNotSetResponse :: http_response where
  "keyNotSetResponse =
     jsonResponse 400
       [(js ''error'', JString (js (''Server is configured to use Gemini for explanations but ''
           @ ''GEMINI_API_KEY is not set. Please add GEMINI_API_KEY to your .env.'')))]"

text \<open>The \<^verbatim>\<open>catch\<close> of the handlers of \<^verbatim>\<open>/api/chat\<close> and \<^verbatim>\<open>/api/explain\<close>.\<close>

definition serverError :: http_response where
  "serverError = jsonResponse 500 [(js ''error'', JString (js ''Server error''))]"

text \<open>The prompt of \<^verbatim>\<open>POST /api/chat\<close> for the message converted to the string \<open>m\<close>.\<close>

definition chatPrompt :: "jsstring \<Rightarrow> jsstring" where
  "chatPrompt m =
     js (''You are FitBuddy, a concise friendly fitness coach. Answer the user's ''
       @ ''question clearly and with practical steps. If user asks for a workout, ''
       @ ''include sets/reps/time. Keep it brief.\<newline>\<newline>User: '') @ m"

text \<open>
  \<^verbatim>\<open>POST /api/chat\<close>. The handler is the same text in both files; it calls the
  \<^verbatim>\<open>callGemini\<close> and the \<^verbatim>\<open>localFallback\<close> of its file, which are parameters here.
\<close>

definition chatWith ::
  "(env \<Rightarrow> runtime \<Rightarrow> jsstring \<Rightarrow> (js_error + json) \<times> fetch_request list)
     \<Rightarrow> (json option \<Rightarrow> js_error + jsstring)
     \<Rightarrow> env \<Rightarrow> runtime \<Rightarrow> json option \<Rightarrow> http_response \<times> fetch_request list" where
  "chatWith call fallbackOf env rt reqBody =
     (let message = getProp (js ''message'') (bodyOrEmpty reqBody) in
      if \<not> truthy message then (noMessageResponse, [])
      else if \<not> envTruthy (GEMINI_API_KEY env) then
        (case fallbackOf message of
           Inl e \<Rightarrow> (serverError, [])
         | Inr reply \<Rightarrow>
             (jsonResponse 200
                [(js ''reply'', JString reply), (js ''source'', JString (js ''local-fallback''))],
              []))
      else
        (case interpolate rt (the message) of
           Inl e \<Rightarrow> (serverError, [])
         | Inr m \<Rightarrow>
             (let prompt = chatPrompt m
              in case call env rt prompt of
                   (Inl err, calls) \<Rightarrow>
                     (case fallbackOf message of
                        Inl e \<Rightarrow> (serverError, calls)
                      | Inr fallback \<Rightarrow>
                          (jsonResponse 200
                             [(js ''reply'', JString fallback),
                              (js ''source'', JString (js ''fallback'')),
                              (js ''error'', JString (errorToString err))],
                           calls))
                 | (Inr replyText, calls) \<Rightarrow>
                     (jsonResponse 200
                        [(js ''reply'', replyText), (js ''source'', JString (js ''gemini''))],
                      calls))))"

definition chat :: "env \<Rightarrow> runtime \<Rightarrow> json option \<Rightarrow> http_response \<times> fetch_request list" where
  "chat = chatWith callGemini localFallback"

definition chat_server_js ::
  "env \<Rightarrow> runtime \<Rightarrow> json option \<Rightarrow> http_response \<times> fetch_request list" where
  "chat_server_js = chatWith callGemini_server_js localFallback_server_js"

text \<open>The prompt of the two explain routes; the template converts \<^verbatim>\<open>mode\<close>, \<^verbatim>\<open>language\<close>,
  \<^verbatim>\<open>mode\<close> and \<^verbatim>\<open>code\<close> in this order.\<close>

definition explainPrompt :: "runtime \<Rightarrow> json \<Rightarrow> json \<Rightarrow> json \<Rightarrow> js_error + jsstring" where
  "explainPrompt rt mode language code =
     (case interpolate rt mode of Inl e \<Rightarrow> Inl e | Inr m1 \<Rightarrow>
      case interpolate rt language of Inl e \<Rightarrow> Inl e | Inr l \<Rightarrow>
      case interpolate rt mode of Inl e \<Rightarrow> Inl e | Inr m2 \<Rightarrow>
      case interpolate rt code of Inl e \<Rightarrow> Inl e | Inr c \<Rightarrow>
        Inr (js ''You are a helpful code explainer. The user requested mode='' @ m1
             @ js '' and language='' @ l @ js ''. Provide a clear '' @ m2
             @ js '' of the code below.\<newline>\<newline>Code:\<newline>'' @ c))"

text \<open>
  How a block of statements ends: with a \<^verbatim>\<open>return\<close>, or by running to its end, after which
  the statements behind it run.
\<close>

datatype 'a completion = Returned 'a | FellThrough

text \<open>The inner \<^verbatim>\<open>try\<close> statement of \<^verbatim>\<open>POST /api/explain\<close>, with its \<^verbatim>\<open>catch\<close>.\<close>

definition explainTry ::
  "env \<Rightarrow> runtime \<Rightarrow> jsstring \<Rightarrow> http_response completion \<times> fetch_request list" where
  "explainTry env rt prompt =
     (case callGemini env rt prompt of
        (Inr explanation, calls) \<Rightarrow>
          (Returned (jsonResponse 200
             [(js ''explanation'', explanation), (js ''source'', JString (js ''gemini''))]), calls)
      | (Inl err, calls) \<Rightarrow>
          (Returned (jsonResponse 502
             [(js ''error'', JString (js ''Gemini API error'')),
              (js ''detail'', JString (errorToString err))]), calls))"

text \<open>\<^verbatim>\<open>POST /api/explain\<close>. The statements behind the \<^verbatim>\<open>try\<close> are those of the source: the
  call of \<^verbatim>\<open>naiveExplain\<close> and the response with the source \<^verbatim>\<open>local-fallback\<close>.\<close>

definition explain :: "env \<Rightarrow> runtime \<Rightarrow> json option \<Rightarrow> http_response \<times> fetch_request list" where
  "explain env rt reqBody =
     (let b = bodyOrEmpty reqBody;
          code = getProp (js ''code'') b;
          model = withDefault (js ''gpt-4-mini'') (getProp (js ''model'') b);
          mode = withDefault (js ''summary'') (getProp (js ''mode'') b);
          language = withDefault (js ''auto'') (getProp (js ''language'') b)
      in
      if \<not> truthy code then (noCodeResponse, [])
      else if \<not> envTruthy (GEMINI_API_KEY env) then (keyNotSetResponse, [])
      else
        (case explainPrompt rt mode language (the code) of
           Inl e \<Rightarrow> (serverError, [])
         | Inr prompt \<Rightarrow>
             (case explainTry env rt prompt of
                (Returned response, calls) \<Rightarrow> (response, calls)
              | (FellThrough, calls) \<Rightarrow>
                  (case naiveExplain (the code) mode of
                     Inl e \<Rightarrow> (serverError, calls)
                   | Inr explanation \<Rightarrow>
                       (jsonResponse 200
                          [(js ''explanation'', JString explanation),
                           (js ''source'', JString (js ''local-fallback''))],
                        calls)))))"

text \<open>The three headers that \<^verbatim>\<open>POST /api/explain/stream\<close> sets before it calls upstream.\<close>

definition streamHeaders :: "(jsstring \<times> jsstring) list" where
  "streamHeaders =
     [(js ''Content-Type'', js ''text/plain; charset=utf-8''),
      (js ''Cache-Control'', js ''no-cache''),
      (js ''Connection'', js ''keep-alive'')]"

text \<open>
  \<^verbatim>\<open>POST /api/explain/stream\<close>. An explanation that is truthy and not a string has no
  \<^verbatim>\<open>split\<close>: the call throws, and the outer \<^verbatim>\<open>catch\<close> ends the response with status 500.
\<close>

definition explainStream ::
  "env \<Rightarrow> runtime \<Rightarrow> json option \<Rightarrow> http_response \<times> fetch_request list" where
  "explainStream env rt reqBody =
     (let b = bodyOrEmpty reqBody;
          code = getProp (js ''code'') b;
          mode = withDefault (js ''summary'') (getProp (js ''mode'') b);
          language = withDefault (js ''auto'') (getProp (js ''language'') b)
      in
      if \<not> truthy code then (noCodeResponse, [])
      else if \<not> envTruthy (GEMINI_API_KEY env) then
        (jsonResponse 400
           [(js ''error'', JString (js ''GEMINI_API_KEY is not set in server environment''))], [])
      else
        (case explainPrompt rt mode language (the code) of
           Inl e \<Rightarrow>
             (\<lparr> statusCode = 500, headers = [], payload = TextPayload [js ''Server error''] \<rparr>, [])
         | Inr prompt \<Rightarrow>
             (case callGemini env rt prompt of
                (Inl err, calls) \<Rightarrow>
                  (\<lparr> statusCode = 502, headers = streamHeaders,
                     payload = TextPayload [js ''Error: Gemini API failed\<newline>''] \<rparr>, calls)
              | (Inr answer, calls) \<Rightarrow>
                  (let explanation = (if \<not> truthy (Some answer) then JString [] else answer) in
                   case explanation of
                     JString str \<Rightarrow>
                       (\<lparr> statusCode = 200, headers = streamHeaders,
                          payload = TextPayload (map (\<lambda>c. c @ js ''\<newline>'') (chunkText str)) \<rparr>,
                        calls)
                   | _ \<Rightarrow>
                       (\<lparr> statusCode = 500, headers = streamHeaders,
                          payload = TextPayload [js ''Server error''] \<rparr>, calls)))))"

section \<open>Notions used in the statements and proofs\<close>

text \<open>The request that the server with the three routes sends for a prompt.\<close>

definition upstreamRequest :: "env \<Rightarrow> runtime \<Rightarrow> jsstring \<Rightarrow> fetch_request" where
  "upstreamRequest env rt promptText =
     geminiRequest env (generationConfigDefaults env rt) promptText"

text \<open>The prompt that the two explain routes build from \<^verbatim>\<open>req.body\<close>.\<close>

definition explainPromptFor :: "runtime \<Rightarrow> json option \<Rightarrow> js_error + jsstring" where
  "explainPromptFor rt reqBody =
     (let b = bodyOrEmpty reqBody in
      explainPrompt rt (withDefault (js ''summary'') (getProp (js ''mode'') b))
        (withDefault (js ''auto'') (getProp (js ''language'') b))
        (the (getProp (js ''code'') b)))"

text \<open>The error that \<^verbatim>\<open>callGemini\<close> throws for a response that is not \<^verbatim>\<open>ok\<close>.\<close>

definition upstreamError :: "nat \<Rightarrow> jsstring \<Rightarrow> js_error" where
  "upstreamError code errorText =
     newError (js ''Gemini API error '' @ decimal code @ js '': '' @ errorText)"

text \<open>A platform for worked examples: upstream gives every request the same outcome.\<close>

definition samplePlatform :: "fetch_outcome \<Rightarrow> runtime" where
  "samplePlatform outcome =
     \<lparr> fetch = (\<lambda>request. outcome),
       JSON_stringify = (\<lambda>data. js ''{}''),
       parseInt10 = (\<lambda>digits. NaN),
       ToString = (\<lambda>v. Inr (js ''[object Object]'')) \<rparr>"

text \<open>The loop of the splitter, as the chunks still to come from a buffer and the
  sentences not yet seen.\<close>

fun chunksFrom :: "jsstring \<Rightarrow> jsstring list \<Rightarrow> jsstring list" where
  "chunksFrom buf [] = (if buf \<noteq> [] then [trim buf] else [])"
| "chunksFrom buf (s # ss) =
     (if length (buf @ js '' '' @ s) > maxChunk then
        (if buf \<noteq> [] then trim buf # chunksFrom s ss else trim s # chunksFrom [] ss)
      else chunksFrom (if buf \<noteq> [] then buf @ js '' '' @ s else s) ss)"

text \<open>A chunk is made of whole sentences and is within the limit unless it is one
  sentence that is itself longer.\<close>

definition wholeSentences :: "jsstring list \<Rightarrow> jsstring \<Rightarrow> bool" where
  "wholeSentences sentences c =
     (\<exists>g. g \<noteq> [] \<and> sublist g sentences \<and> c = trim (joinWithSpace g) \<and>
        (length c \<le> maxChunk \<or> (\<exists>s. g = [s] \<and> maxChunk < length s)))"

text \<open>The invariant of the buffer after the sentences \<open>seen\<close>.\<close>

definition bufInv :: "jsstring list \<Rightarrow> jsstring \<Rightarrow> bool" where
  "bufInv seen buf =
     (buf = [] \<or> (\<exists>g. g \<noteq> [] \<and> suffix g seen \<and> buf = joinWithSpace g \<and>
        (length buf \<le> maxChunk \<or> (\<exists>s. g = [s]))))"

definition startsClean :: "jsstring \<Rightarrow> bool" where
  "startsClean s = (s = [] \<or> \<not> isWhiteSpace (hd s))"

definition endsClean :: "jsstring \<Rightarrow> bool" where
  "endsClean s = (s \<noteq> [] \<and> \<not> isWhiteSpace (last s))"

text \<open>Values for the worked examples: an environment with a key and one without, an
  answer of the upstream service with one candidate, and a response over quota.\<close>

definition sampleEnv :: env where
  "sampleEnv = \<lparr> GEMINI_API_KEY = Some (js ''key''), GEMINI_MAX_OUTPUT_TOKENS = None \<rparr>"

definition noKeyEnv :: env where
  "noKeyEnv = \<lparr> GEMINI_API_KEY = None, GEMINI_MAX_OUTPUT_TOKENS = None \<rparr>"


definition overQuota :: fetch_response where
  "overQuota = \<lparr> status = 429, res_text = Inr (js ''quota''), res_json = Inl (newError []) \<rparr>"





text \<open>A platform whose upstream answers every request with the response over quota and
  whose \<^verbatim>\<open>ToString\<close> gives \<^verbatim>\<open>"5"\<close> for the number 5.\<close>

definition sampleToString :: "json \<Rightarrow> js_error + jsstring" where
  "sampleToString v =
     (if v = JNumber (Finite 5) then Inr (js ''5'') else Inr (js ''[object Object]''))"

definition overQuotaPlatform :: runtime where
  "overQuotaPlatform = (samplePlatform (Resolved overQuota)) \<lparr> ToString := sampleToString \<rparr>"

section \<open>The Chunking Splitter: whole sentences and the limit\<close>

lemma length_trim_le: "length (trim s) \<le> length s"
proof -
  have "length (trim s) \<le> length (rev (dropWhile isWhiteSpace s))"
    unfolding trim_def using length_dropWhile_le[of isWhiteSpace "rev (dropWhile isWhiteSpace s)"] by simp
  also have "\<dots> \<le> length s"
    by (simp add: length_dropWhile_le)
  finally show ?thesis .
qed

lemma joinWithSpace_snoc: "g \<noteq> [] \<Longrightarrow> joinWithSpace (g @ [s]) = joinWithSpace g @ js '' '' @ s"
  by (induction g rule: joinWithSpace.induct) auto

lemma wholeSentences_mono: "wholeSentences seen c \<Longrightarrow> wholeSentences (seen @ later) c"
proof -
  assume "wholeSentences seen c"
  then obtain g where g: "g \<noteq> []" "sublist g seen" "c = trim (joinWithSpace g)"
    "length c \<le> maxChunk \<or> (\<exists>s. g = [s] \<and> maxChunk < length s)"
    unfolding wholeSentences_def by auto
  from g(2) have "sublist g (seen @ later)" by (simp add: sublist_append)
  with g(1,3,4) show ?thesis unfolding wholeSentences_def by blast
qed

lemma wholeSentencesI:
  "g \<noteq> [] \<Longrightarrow> sublist g sentences \<Longrightarrow> c = trim (joinWithSpace g) \<Longrightarrow>
   length c \<le> maxChunk \<or> (\<exists>s. g = [s] \<and> maxChunk < length s) \<Longrightarrow> wholeSentences sentences c"
  unfolding wholeSentences_def by (rule exI[of _ g]) simp

lemma bufInv_flush:
  assumes "bufInv seen buf" "buf \<noteq> []"
  shows "wholeSentences (seen @ later) (trim buf)"
proof -
  from assms obtain g where g: "g \<noteq> []" "suffix g seen" "buf = joinWithSpace g"
    "length buf \<le> maxChunk \<or> (\<exists>s. g = [s])"
    unfolding bufInv_def by auto
  have sub: "sublist g (seen @ later)"
    using g(2) by (simp add: sublist_append)
  have "length (trim buf) \<le> maxChunk \<or> (\<exists>s. g = [s] \<and> maxChunk < length s)"
  proof (cases "length (trim buf) \<le> maxChunk")
    case True
    then show ?thesis by simp
  next
    case False
    then have long: "maxChunk < length buf" using length_trim_le[of buf] by linarith
    with g(4) obtain s where s: "g = [s]" by auto
    then have "buf = s" using g(3) by simp
    with long s show ?thesis by simp
  qed
  with g(1) sub g(3) show ?thesis by (intro wholeSentencesI[of g]) simp_all
qed

lemma bufInv_single: "bufInv (seen @ [s]) s"
  unfolding bufInv_def
  by (rule disjI2, rule exI[of _ "[s]"]) (simp add: suffix_def)

lemma bufInv_append:
  assumes "bufInv seen buf" "buf \<noteq> []" "length (buf @ js '' '' @ s) \<le> maxChunk"
  shows "bufInv (seen @ [s]) (buf @ js '' '' @ s)"
proof -
  from assms obtain g where g: "g \<noteq> []" "suffix g seen" "buf = joinWithSpace g"
    unfolding bufInv_def by auto
  have "suffix (g @ [s]) (seen @ [s])" using g(2) by (auto simp: suffix_def)
  moreover have "buf @ js '' '' @ s = joinWithSpace (g @ [s])"
    using g by (simp add: joinWithSpace_snoc)
  ultimately show ?thesis unfolding bufInv_def using assms(3)
    by (intro disjI2 exI[of _ "g @ [s]"]) simp
qed

lemma standalone_flush:
  "wholeSentences (seen @ [s] @ later) (trim s)"
proof -
  have "length (trim s) \<le> maxChunk \<or> (\<exists>t. [s] = [t] \<and> maxChunk < length t)"
    using length_trim_le[of s] by (cases "length (trim s) \<le> maxChunk") auto
  moreover have "sublist [s] (seen @ [s] @ later)" by (rule sublist_appendI)
  ultimately show ?thesis
    by (intro wholeSentencesI[of "[s]"]) simp_all
qed

lemma chunkStep_inv:
  assumes "bufInv seen buf" "\<forall>c \<in> set chunks. wholeSentences seen c"
    and "chunkStep (buf, chunks) s = (buf', chunks')"
  shows "bufInv (seen @ [s]) buf' \<and> (\<forall>c \<in> set chunks'. wholeSentences (seen @ [s]) c)"
proof -
  have old: "\<forall>c \<in> set chunks. wholeSentences (seen @ [s]) c"
    using assms(2) wholeSentences_mono by blast
  show ?thesis
  proof (cases "maxChunk < length (buf @ js '' '' @ s)")
    case over: True
    show ?thesis
    proof (cases "buf = []")
      case True
      with over assms(3) have eq: "buf' = []" "chunks' = chunks @ [trim s]"
        by (auto simp: chunkStep_def)
      have "wholeSentences (seen @ [s] @ []) (trim s)"
        by (rule standalone_flush)
      with old eq show ?thesis by (simp add: bufInv_def)
    next
      case False
      with over assms(3) have eq: "buf' = s" "chunks' = chunks @ [trim buf]"
        by (auto simp: chunkStep_def)
      from bufInv_flush[OF assms(1) False] old eq show ?thesis
        by (simp add: bufInv_single)
    qed
  next
    case fits: False
    show ?thesis
    proof (cases "buf = []")
      case True
      with fits assms(3) have eq: "buf' = s" "chunks' = chunks"
        by (auto simp: chunkStep_def)
      with old show ?thesis by (simp add: bufInv_single)
    next
      case False
      with fits assms(3) have eq: "buf' = buf @ js '' '' @ s" "chunks' = chunks"
        by (auto simp: chunkStep_def)
      from fits have "length (buf @ js '' '' @ s) \<le> maxChunk" by simp
      from bufInv_append[OF assms(1) False this] old eq show ?thesis by simp
    qed
  qed
qed

lemma chunk_loop_inv:
  "foldl chunkStep ([], []) sentences = (buf, chunks) \<Longrightarrow>
     bufInv sentences buf \<and> (\<forall>c \<in> set chunks. wholeSentences sentences c)"
proof (induction sentences arbitrary: buf chunks rule: rev_induct)
  case Nil
  then show ?case by (simp add: bufInv_def)
next
  case (snoc s sentences)
  obtain b0 c0 where st: "foldl chunkStep ([], []) sentences = (b0, c0)"
    by (cases "foldl chunkStep ([], []) sentences")
  from snoc.IH[OF st] have inv: "bufInv sentences b0" "\<forall>c \<in> set c0. wholeSentences sentences c"
    by simp_all
  from snoc.prems st have "chunkStep (b0, c0) s = (buf, chunks)" by simp
  from chunkStep_inv[OF inv this] show ?case .
qed

lemma chunkText_example: "chunkText (js ''Hi. Yo.'') = [js ''Hi. Yo.'']"
  by (simp add: chunkText_def chunkStep_def trim_def isWhiteSpace_def isTerminator_def
      maxChunk_def js_def)

text \<open>A text of 241 code units without white space is one sentence and one chunk.\<close>

lemma splitSentences_no_space:
  "\<forall>c \<in> set xs. \<not> isWhiteSpace c \<Longrightarrow> splitSentences cur xs = [cur @ xs]"
  by (induction xs arbitrary: cur) simp_all

lemma trim_replicate: "\<not> isWhiteSpace x \<Longrightarrow> trim (replicate n x) = replicate n x"
proof -
  assume x: "\<not> isWhiteSpace x"
  then have "dropWhile isWhiteSpace (replicate n x) = replicate n x" by (cases n) simp_all
  then show ?thesis by (simp add: trim_def)
qed

lemma chunkText_long_example: "chunkText (replicate 241 0x78) = [replicate 241 0x78]"
proof -
  have x: "\<not> isWhiteSpace 0x78" by (simp add: isWhiteSpace_def)
  have s: "splitSentences [] (replicate 241 0x78) = [replicate 241 0x78]"
    using x splitSentences_no_space[of "replicate 241 0x78" "[]"] by simp
  have l: "maxChunk < length (js '' '' @ replicate 241 (0x78 :: code_unit))"
    by (simp add: maxChunk_def js_def)
  show ?thesis
    using l by (simp add: chunkText_def s chunkStep_def trim_replicate[OF x])
qed

text \<open>
  Claim C1. Every chunk that the Chunking Splitter produces is the trimmed join, with
  single spaces, of one or later consecutive sentences of the split, so no sentence is
  cut; and the chunk is at most 240 code units long unless it is made of a single
  sentence that is itself longer than 240.
\<close>

theorem chunks_whole_sentences_within_limit:
  "\<forall>c \<in> set (chunkText text).
     \<exists>g. g \<noteq> [] \<and> sublist g (splitSentences [] text) \<and> c = trim (joinWithSpace g) \<and>
       (length c \<le> maxChunk \<or> (\<exists>s. g = [s] \<and> maxChunk < length s))"
proof
  fix c assume c: "c \<in> set (chunkText text)"
  obtain buf chunks where st: "foldl chunkStep ([], []) (splitSentences [] text) = (buf, chunks)"
    by (cases "foldl chunkStep ([], []) (splitSentences [] text)")
  from chunk_loop_inv[OF st] have inv: "bufInv (splitSentences [] text) buf"
    "\<forall>c \<in> set chunks. wholeSentences (splitSentences [] text) c" by simp_all
  from c st have "c \<in> set chunks \<or> (buf \<noteq> [] \<and> c = trim buf)"
    by (auto simp: chunkText_def split: if_splits)
  then have "wholeSentences (splitSentences [] text) c"
  proof
    assume "c \<in> set chunks" with inv(2) show ?thesis by blast
  next
    assume "buf \<noteq> [] \<and> c = trim buf"
    with bufInv_flush[OF inv(1), of "[]"] show ?thesis by simp
  qed
  then show "\<exists>g. g \<noteq> [] \<and> sublist g (splitSentences [] text) \<and> c = trim (joinWithSpace g) \<and>
       (length c \<le> maxChunk \<or> (\<exists>s. g = [s] \<and> maxChunk < length s))"
    unfolding wholeSentences_def .
qed

theorem chunks_whole_sentences_within_limit_witness:
  "chunkText (js ''Hi. Yo.'') = [js ''Hi. Yo.'']
   \<and> (\<exists>g. g \<noteq> [] \<and> sublist g (splitSentences [] (js ''Hi. Yo.''))
         \<and> js ''Hi. Yo.'' = trim (joinWithSpace g)
         \<and> (length (js ''Hi. Yo.'') \<le> maxChunk \<or> (\<exists>s. g = [s] \<and> maxChunk < length s)))
   \<and> chunkText (replicate 241 0x78) = [replicate 241 0x78]
   \<and> (\<exists>g. g \<noteq> [] \<and> sublist g (splitSentences [] (replicate 241 0x78))
         \<and> replicate 241 0x78 = trim (joinWithSpace g)
         \<and> (\<exists>s. g = [s] \<and> maxChunk < length s))"
  using chunks_whole_sentences_within_limit[of "js ''Hi. Yo.''"] chunkText_example
    chunks_whole_sentences_within_limit[of "replicate 241 0x78"] chunkText_long_example
  by (simp add: maxChunk_def)

section \<open>The Chunking Splitter: the chunks joined again\<close>

lemma foldl_chunkStep:
  "(case foldl chunkStep (buf, chunks) ss of
      (b, c) \<Rightarrow> if b \<noteq> [] then c @ [trim b] else c) = chunks @ chunksFrom buf ss"
  by (induction ss arbitrary: buf chunks) (simp_all add: chunkStep_def)

lemma chunkText_chunksFrom: "chunkText text = chunksFrom [] (splitSentences [] text)"
  using foldl_chunkStep[of "[]" "[]" "splitSentences [] text"] by (simp add: chunkText_def)

lemma space_isWhiteSpace: "list_all isWhiteSpace (js '' '')"
  by (simp add: js_def isWhiteSpace_def)

lemma terminator_not_space: "isTerminator c \<Longrightarrow> \<not> isWhiteSpace c"
  by (auto simp: isTerminator_def isWhiteSpace_def)

lemma dropWhile_append_keep: "\<exists>x \<in> set xs. \<not> P x \<Longrightarrow> dropWhile P (xs @ ys) = dropWhile P xs @ ys"
  by (induction xs) auto

lemma dropWhile_append_skip: "\<forall>x \<in> set xs. P x \<Longrightarrow> dropWhile P (xs @ ys) = dropWhile P ys"
  by (induction xs) auto

lemma dropWhile_rev_last: "s \<noteq> [] \<Longrightarrow> \<not> P (last s) \<Longrightarrow> rev (dropWhile P (rev s)) = s"
  by (cases s rule: rev_cases) auto

lemma trim_append_space: "list_all isWhiteSpace w \<Longrightarrow> trim (a @ w) = trim a"
proof (cases "list_all isWhiteSpace a")
  case True
  assume "list_all isWhiteSpace w"
  with True have e: "dropWhile isWhiteSpace (a @ w) = []" "dropWhile isWhiteSpace a = []"
    unfolding dropWhile_eq_Nil_conv by (auto simp: list_all_iff)
  show ?thesis unfolding trim_def e ..
next
  case False
  assume w: "list_all isWhiteSpace w"
  from False have "dropWhile isWhiteSpace (a @ w) = dropWhile isWhiteSpace a @ w"
    by (intro dropWhile_append_keep) (simp add: list_all_iff)
  moreover have "dropWhile isWhiteSpace (rev w @ r) = dropWhile isWhiteSpace r" for r
    using w by (intro dropWhile_append_skip) (simp add: list_all_iff)
  ultimately show ?thesis by (simp add: trim_def)
qed

lemma trim_glue:
  assumes "a \<noteq> []" "\<not> isWhiteSpace (last a)" "x \<noteq> []" "\<not> isWhiteSpace (hd x)"
  shows "trim (a @ m @ x) = trim a @ m @ trim x"
proof -
  have a: "\<exists>c \<in> set a. \<not> isWhiteSpace c" using assms(1,2) last_in_set by blast
  have x: "\<exists>c \<in> set (rev x). \<not> isWhiteSpace c" using assms(3,4) hd_in_set by fastforce
  have da: "dropWhile isWhiteSpace a \<noteq> []" using a by (simp add: dropWhile_eq_Nil_conv)
  have lda: "last (dropWhile isWhiteSpace a) = last a"
    using da by (metis last_appendR takeWhile_dropWhile_id)
  have ta: "trim a = dropWhile isWhiteSpace a"
    unfolding trim_def using da assms(2) lda by (intro dropWhile_rev_last) simp_all
  have tx: "trim x = rev (dropWhile isWhiteSpace (rev x))"
    using assms(3,4) by (cases x) (simp_all add: trim_def)
  have "dropWhile isWhiteSpace (a @ m @ x) = dropWhile isWhiteSpace a @ m @ x"
    using a by (rule dropWhile_append_keep)
  moreover have "dropWhile isWhiteSpace (rev x @ r) = dropWhile isWhiteSpace (rev x) @ r" for r
    using x by (rule dropWhile_append_keep)
  ultimately show ?thesis by (simp add: trim_def ta[unfolded trim_def] tx[unfolded trim_def])
qed

lemma trim_eq_Nil: "trim s = [] \<Longrightarrow> list_all isWhiteSpace s"
proof -
  assume "trim s = []"
  then have "dropWhile isWhiteSpace (rev (dropWhile isWhiteSpace s)) = []"
    by (simp add: trim_def)
  then have "\<forall>x \<in> set (dropWhile isWhiteSpace s). isWhiteSpace x"
    by (simp add: dropWhile_eq_Nil_conv)
  then have "dropWhile isWhiteSpace s = []"
    by (metis hd_dropWhile hd_in_set)
  then show ?thesis by (simp add: dropWhile_eq_Nil_conv list_all_iff)
qed

lemma trim_nonempty: "startsClean s \<Longrightarrow> s \<noteq> [] \<longrightarrow> trim s \<noteq> []"
  using trim_eq_Nil[of s] by (cases s) (auto simp: startsClean_def)

lemma trim_clean: "s \<noteq> [] \<Longrightarrow> \<not> isWhiteSpace (hd s) \<Longrightarrow> \<not> isWhiteSpace (last s) \<Longrightarrow> trim s = s"
proof -
  assume a: "s \<noteq> []" "\<not> isWhiteSpace (hd s)" "\<not> isWhiteSpace (last s)"
  then have "dropWhile isWhiteSpace s = s" by (cases s) simp_all
  then show ?thesis unfolding trim_def using dropWhile_rev_last[of s isWhiteSpace] a by simp
qed

lemma chunksFrom_nonempty_chunks:
  "\<forall>s \<in> set ss. startsClean s \<Longrightarrow> startsClean buf \<Longrightarrow> [] \<notin> set (chunksFrom buf ss)"
proof (induction ss arbitrary: buf)
  case Nil
  then show ?case using trim_nonempty[of buf] by auto
next
  case (Cons s ss)
  have s: "startsClean s" using Cons.prems(1) by simp
  have rest: "\<forall>s \<in> set ss. startsClean s" using Cons.prems(1) by simp
  have e: "startsClean []" by (simp add: startsClean_def)
  have j: "buf \<noteq> [] \<Longrightarrow> startsClean (buf @ js '' '' @ s)"
    using Cons.prems(2) by (cases buf) (simp_all add: startsClean_def)
  have tb: "buf \<noteq> [] \<Longrightarrow> trim buf \<noteq> []"
    using Cons.prems(2) trim_nonempty[of buf] by simp
  have ts: "maxChunk < length (js '' '' @ s) \<Longrightarrow> trim s \<noteq> []"
    using s trim_nonempty[of s] by (cases s) (auto simp: maxChunk_def js_def)
  show ?case
    using Cons.IH[OF rest s] Cons.IH[OF rest e] Cons.IH[OF rest j] tb ts
    by (cases "buf = []") auto
qed

lemma chunksFrom_nonempty: "buf \<noteq> [] \<Longrightarrow> chunksFrom buf ss \<noteq> []"
  by (induction ss arbitrary: buf) auto

lemma joinWithSpace_Cons: "ss \<noteq> [] \<Longrightarrow> joinWithSpace (s # ss) = s @ js '' '' @ joinWithSpace ss"
  by (cases ss) simp_all

lemma joinWithSpace_merge: "joinWithSpace ((a @ js '' '' @ s) # ss) = joinWithSpace (a # s # ss)"
  by (cases ss) simp_all

lemma joinWithSpace_eq_Nil: "[] \<notin> set xs \<Longrightarrow> xs \<noteq> [] \<Longrightarrow> joinWithSpace xs \<noteq> []"
  by (cases xs rule: joinWithSpace.cases) auto

lemma hd_joinWithSpace: "s \<noteq> [] \<Longrightarrow> hd (joinWithSpace (s # ss)) = hd s"
  by (cases ss) simp_all

lemma chunksFrom_join:
  assumes "\<forall>t \<in> set (if buf = [] then tl ss else ss). startsClean t"
    and "\<forall>t \<in> set (butlast ss). endsClean t"
    and "ss \<noteq> [] \<longrightarrow> buf \<noteq> [] \<longrightarrow> \<not> isWhiteSpace (last buf)"
  shows "joinWithSpace (chunksFrom buf ss) =
         trim (joinWithSpace (if buf = [] then ss else buf # ss))"
  using assms
proof (induction ss arbitrary: buf)
  case Nil
  then show ?case by (simp add: trim_def)
next
  case (Cons s ss)
  have rest_clean: "\<forall>t \<in> set ss. startsClean t"
    using Cons.prems(1) by (auto split: if_splits)
  have tl_clean: "\<forall>t \<in> set (tl ss). startsClean t"
    using rest_clean by (cases ss) simp_all
  have ends: "\<forall>t \<in> set (butlast ss). endsClean t"
    using Cons.prems(2) by (auto split: if_splits)
  have s_end: "ss \<noteq> [] \<longrightarrow> endsClean s"
    using Cons.prems(2) by auto
  have s_last: "ss = [] \<or> (s \<noteq> [] \<and> \<not> isWhiteSpace (last s))"
    using s_end by (auto simp: endsClean_def)
  have buf_end: "buf \<noteq> [] \<longrightarrow> \<not> isWhiteSpace (last buf)"
    using Cons.prems(3) by simp
  have s_start: "buf \<noteq> [] \<longrightarrow> startsClean s"
    using Cons.prems(1) by simp
  have IH_s: "joinWithSpace (chunksFrom s ss) =
      trim (joinWithSpace (if s = [] then ss else s # ss))"
    using s_last rest_clean tl_clean ends by (intro Cons.IH) auto
  have IH_e: "joinWithSpace (chunksFrom [] ss) = trim (joinWithSpace ss)"
    using tl_clean ends Cons.IH[of "[]"] by simp
  show ?case
  proof (cases "maxChunk < length (buf @ js '' '' @ s)")
    case over: True
    show ?thesis
    proof (cases "buf = []")
      case False
      then have step: "chunksFrom buf (s # ss) = trim buf # chunksFrom s ss"
        using over by simp
      show ?thesis
      proof (cases "s = []")
        case True
        then have "ss = []" using s_last by simp
        with True step False show ?thesis
          using trim_append_space[OF space_isWhiteSpace, of buf] by simp
      next
        case s_ne: False
        then have hs: "\<not> isWhiteSpace (hd s)" using s_start False by (simp add: startsClean_def)
        let ?X = "joinWithSpace (s # ss)"
        have X: "?X \<noteq> []" "\<not> isWhiteSpace (hd ?X)"
          using s_ne hs hd_joinWithSpace[of s ss] by (cases ss; simp)+
        have ne: "chunksFrom s ss \<noteq> []" using s_ne by (rule chunksFrom_nonempty)
        have "joinWithSpace (chunksFrom buf (s # ss)) = trim buf @ js '' '' @ trim ?X"
          using step ne IH_s s_ne by (simp add: joinWithSpace_Cons)
        also have "\<dots> = trim (buf @ js '' '' @ ?X)"
          using False buf_end X by (simp add: trim_glue)
        also have "buf @ js '' '' @ ?X = joinWithSpace (buf # s # ss)" by simp
        finally show ?thesis using False by simp
      qed
    next
      case True
      then have step: "chunksFrom buf (s # ss) = trim s # chunksFrom [] ss"
        using over by simp
      show ?thesis
      proof (cases "ss = []")
        case True
        with step \<open>buf = []\<close> show ?thesis by simp
      next
        case ss_ne: False
        then have se: "s \<noteq> []" "\<not> isWhiteSpace (last s)" using s_last by simp_all
        have J: "joinWithSpace (s # ss) = s @ js '' '' @ joinWithSpace ss"
          using ss_ne by (rule joinWithSpace_Cons)
        show ?thesis
        proof (cases "chunksFrom [] ss = []")
          case True
          then have "trim (joinWithSpace ss) = []" using IH_e by simp
          then have "list_all isWhiteSpace (js '' '' @ joinWithSpace ss)"
            using trim_eq_Nil space_isWhiteSpace by simp
          then have "trim (s @ js '' '' @ joinWithSpace ss) = trim s"
            by (rule trim_append_space)
          with True step J \<open>buf = []\<close> show ?thesis by simp
        next
          case False
          have "[] \<notin> set (chunksFrom [] ss)"
            using rest_clean by (intro chunksFrom_nonempty_chunks) (simp_all add: startsClean_def)
          then have "joinWithSpace (chunksFrom [] ss) \<noteq> []"
            using False by (rule joinWithSpace_eq_Nil)
          then have tne: "trim (joinWithSpace ss) \<noteq> []" using IH_e by simp
          then have Jne: "joinWithSpace ss \<noteq> []" by (auto simp: trim_def)
          obtain t ts where ss: "ss = t # ts" using ss_ne by (cases ss) auto
          have "t \<noteq> []"
          proof
            assume "t = []"
            show False
            proof (cases ts)
              case Nil
              with ss \<open>t = []\<close> Jne show False by simp
            next
              case (Cons u us)
              with ss \<open>t = []\<close> ends show False by (simp add: endsClean_def)
            qed
          qed
          then have "\<not> isWhiteSpace (hd (joinWithSpace ss))"
            using rest_clean ss hd_joinWithSpace[of t ts] by (simp add: startsClean_def)
          then have "trim (s @ js '' '' @ joinWithSpace ss) =
              trim s @ js '' '' @ trim (joinWithSpace ss)"
            using se Jne by (intro trim_glue) simp_all
          with False step J IH_e \<open>buf = []\<close> show ?thesis
            by (simp add: joinWithSpace_Cons)
        qed
      qed
    qed
  next
    case fits: False
    show ?thesis
    proof (cases "buf = []")
      case True
      then have step: "chunksFrom buf (s # ss) = chunksFrom s ss" using fits by simp
      show ?thesis
      proof (cases "s = []")
        case True
        then have "ss = []" using s_last by simp
        with True step \<open>buf = []\<close> show ?thesis by (simp add: trim_def)
      next
        case False
        with step IH_s \<open>buf = []\<close> show ?thesis by simp
      qed
    next
      case False
      then have step: "chunksFrom buf (s # ss) = chunksFrom (buf @ js '' '' @ s) ss"
        using fits by simp
      have "joinWithSpace (chunksFrom (buf @ js '' '' @ s) ss) =
          trim (joinWithSpace (if buf @ js '' '' @ s = [] then ss else (buf @ js '' '' @ s) # ss))"
        using s_last rest_clean ends False by (intro Cons.IH) auto
      then show ?thesis using step False by (simp add: joinWithSpace_merge)
    qed
  qed
qed

lemma splitSentences_nonempty: "splitSentences cur xs \<noteq> []"
  by (induction cur xs rule: splitSentences.induct) auto

lemma splitSentences_hd_clean:
  "startsClean (cur @ xs) \<Longrightarrow> startsClean (hd (splitSentences cur xs))"
proof (induction cur xs rule: splitSentences.induct)
  case (1 cur)
  then show ?case by simp
next
  case (2 cur c cs)
  show ?case
  proof (cases "isWhiteSpace c \<and> cur \<noteq> [] \<and> isTerminator (last cur)")
    case True
    then show ?thesis using "2.prems" by (cases cur) (simp_all add: startsClean_def)
  next
    case False
    then have eq: "splitSentences cur (c # cs) = splitSentences (cur @ [c]) cs" by auto
    have "startsClean (hd (splitSentences (cur @ [c]) cs))"
      using False "2.prems" by (intro "2.IH"(2)) simp_all
    with eq show ?thesis by simp
  qed
qed

lemma startsClean_dropWhile: "startsClean (dropWhile isWhiteSpace xs)"
  unfolding startsClean_def using hd_dropWhile[of isWhiteSpace xs] by blast

lemma splitSentences_shape:
  "(\<forall>t \<in> set (tl (splitSentences cur xs)). startsClean t) \<and>
   (\<forall>t \<in> set (butlast (splitSentences cur xs)). endsClean t)"
proof (induction cur xs rule: splitSentences.induct)
  case (1 cur)
  then show ?case by simp
next
  case (2 cur c cs)
  show ?case
  proof (cases "isWhiteSpace c \<and> cur \<noteq> [] \<and> isTerminator (last cur)")
    case True
    let ?L = "splitSentences [] (dropWhile isWhiteSpace cs)"
    have eq: "splitSentences cur (c # cs) = cur # ?L" using True by simp
    have L: "?L \<noteq> []" by (rule splitSentences_nonempty)
    have h: "startsClean (hd ?L)"
      using startsClean_dropWhile by (intro splitSentences_hd_clean) simp
    have IH: "(\<forall>t \<in> set (tl ?L). startsClean t) \<and> (\<forall>t \<in> set (butlast ?L). endsClean t)"
      using "2.IH"(1) True by simp
    have all: "\<forall>t \<in> set ?L. startsClean t"
      using L h IH by (cases ?L) auto
    have cur: "endsClean cur"
      using True terminator_not_space by (simp add: endsClean_def)
    show ?thesis using eq all cur IH L by simp
  next
    case False
    then have eq: "splitSentences cur (c # cs) = splitSentences (cur @ [c]) cs" by auto
    show ?thesis unfolding eq using False by (intro "2.IH"(2)) simp
  qed
qed

text \<open>
  Claim C2, as amended. The chunks joined with single spaces are the sentences of the
  split joined with single spaces, in their order and each once, with the white space
  at the two ends of that text removed: every chunk is trimmed, which takes away white
  space in front of the first sentence and behind the last one.
\<close>

theorem chunks_rejoin_trimmed:
  "joinWithSpace (chunkText text) = trim (joinWithSpace (splitSentences [] text))"
proof -
  have "joinWithSpace (chunksFrom [] (splitSentences [] text)) =
      trim (joinWithSpace (if ([]::jsstring) = [] then splitSentences [] text
                           else [] # splitSentences [] text))"
    using splitSentences_shape[of "[]" "text"] by (intro chunksFrom_join) simp_all
  then show ?thesis by (simp add: chunkText_chunksFrom)
qed

theorem chunks_rejoin_trimmed_witness:
  "joinWithSpace (chunkText (js ''Hi.  Yo. '')) = js ''Hi. Yo.''"
  using chunks_rejoin_trimmed[of "js ''Hi.  Yo. ''"]
  by (simp add: js_def trim_def isWhiteSpace_def isTerminator_def)

text \<open>Without the trimming the statement fails for a text that starts with a space (the
  only sentence is \<^verbatim>\<open>" a"\<close> and the only chunk is \<^verbatim>\<open>"a"\<close>) and for a text that ends with a
  line feed (the sentences are \<^verbatim>\<open>"Done."\<close> and the empty string, the only chunk is
  \<^verbatim>\<open>"Done."\<close>).\<close>

theorem chunks_rejoin_counterexample:
  "joinWithSpace (chunkText (js '' a'')) \<noteq> joinWithSpace (splitSentences [] (js '' a''))
   \<and> joinWithSpace (chunkText (js ''Done.\<newline>''))
       \<noteq> joinWithSpace (splitSentences [] (js ''Done.\<newline>''))"
  by (simp add: chunkText_def chunkStep_def js_def trim_def isWhiteSpace_def isTerminator_def
      maxChunk_def)

section \<open>The Upstream Client\<close>

lemma callGemini_calls_once: "snd (callGemini env rt p) = [upstreamRequest env rt p]"
  by (simp add: callGemini_def callGeminiWith_def upstreamRequest_def Let_def)

lemma callGemini_not_ok:
  assumes "fetch rt (upstreamRequest env rt p) = Resolved res" "\<not> ok res"
    "res_text res = Inr errorText"
  shows "callGemini env rt p =
    (Inl (upstreamError (status res) errorText), [upstreamRequest env rt p])"
  using assms
  by (simp add: callGemini_def callGeminiWith_def upstreamRequest_def upstreamError_def Let_def)


lemma errorToString_upstreamError:
  "errorToString (upstreamError code errorText) =
     js ''Error: Gemini API error '' @ decimal code @ js '': '' @ errorText"
  by (simp add: errorToString_def upstreamError_def newError_def js_def)

lemma partTextOf_path:
  assumes "map_of kvs (js ''candidates'') = Some (JArray (JObject candidate # candidates))"
    and "map_of candidate (js ''content'') = Some (JObject cont)"
    and "map_of cont (js ''parts'') = Some (JArray (JObject p # ps))"
  shows "partTextOf (JObject kvs) = map_of p (js ''text'')"
  using assms by (simp add: partTextOf_def getProp_def getIndex0_def)




lemma model_url:
  "js ''https://generativelanguage.googleapis.com/v1beta/models/''
     @ encodeURIComponent (js ''gemini-2.5-flash'') @ js '':generateContent''
   = js ''https://generativelanguage.googleapis.com/v1beta/models/gemini-2.5-flash:generateContent''"
  by (simp add: encodeURIComponent_def isUnreserved_def isWordChar_def js_def)

text \<open>
  Claim C9, as amended. For every prompt \<^verbatim>\<open>callGemini\<close> sends one request; its URL names
  the fixed model \<^verbatim>\<open>gemini-2.5-flash\<close> and its body holds the prompt as the only part of
  one message of role \<^verbatim>\<open>user\<close>. In the server with the three routes the generation
  configuration holds \<^verbatim>\<open>maxOutputTokens\<close>, which is
  \<^verbatim>\<open>parseInt(GEMINI_MAX_OUTPUT_TOKENS, 10)\<close> when that variable is a non-empty string and
  512 when it is not set or empty, and the temperature 0.2. In \<^verbatim>\<open>src/server.js\<close> the
  generation configuration is the empty object.
\<close>

theorem upstream_request_contents:
  "(\<exists>q. snd (callGemini env rt p) = [q]
      \<and> url q = js ''https://generativelanguage.googleapis.com/v1beta/models/gemini-2.5-flash:generateContent''
      \<and> contents (body q) = [\<lparr> role = js ''user'', parts = [\<lparr> part_text = p \<rparr>] \<rparr>]
      \<and> (\<forall>v. GEMINI_MAX_OUTPUT_TOKENS env = Some v \<longrightarrow> v \<noteq> [] \<longrightarrow>
            maxOutputTokens (generationConfig (body q)) = Some (parseInt10 rt v))
      \<and> (GEMINI_MAX_OUTPUT_TOKENS env = None \<or> GEMINI_MAX_OUTPUT_TOKENS env = Some [] \<longrightarrow>
            maxOutputTokens (generationConfig (body q)) = Some (Finite 512))
      \<and> temperature (generationConfig (body q))
            = Some (Finite (3602879701896397 / 18014398509481984)))
   \<and> (\<exists>q. snd (callGemini_server_js env rt p) = [q]
      \<and> url q = js ''https://generativelanguage.googleapis.com/v1beta/models/gemini-2.5-flash:generateContent''
      \<and> contents (body q) = [\<lparr> role = js ''user'', parts = [\<lparr> part_text = p \<rparr>] \<rparr>]
      \<and> generationConfig (body q) = \<lparr> maxOutputTokens = None, temperature = None \<rparr>)"
  by (auto simp: callGemini_def callGemini_server_js_def callGeminiWith_def geminiRequest_def
      generationConfigDefaults_def generationConfigEmpty_def envTruthy_def Let_def model_url)

theorem upstream_request_contents_witness:
  "maxOutputTokens (generationConfig (body (hd (snd (callGemini
       \<lparr> GEMINI_API_KEY = Some (js ''key''), GEMINI_MAX_OUTPUT_TOKENS = Some (js ''256'') \<rparr>
       ((samplePlatform (Rejected (newError []))) \<lparr> parseInt10 := (\<lambda>digits. Finite 256) \<rparr>)
       (js ''p''))))))
     = Some (Finite 256)
   \<and> maxOutputTokens (generationConfig (body (hd (snd (callGemini sampleEnv
       (samplePlatform (Rejected (newError []))) (js ''p''))))))
     = Some (Finite 512)"
  using upstream_request_contents[of
      "\<lparr> GEMINI_API_KEY = Some (js ''key''), GEMINI_MAX_OUTPUT_TOKENS = Some (js ''256'') \<rparr>"
      "(samplePlatform (Rejected (newError []))) \<lparr> parseInt10 := (\<lambda>digits. Finite 256) \<rparr>"
      "js ''p''"]
    upstream_request_contents[of sampleEnv "samplePlatform (Rejected (newError []))" "js ''p''"]
  by (auto simp: sampleEnv_def samplePlatform_def js_def)

text \<open>The request of \<^verbatim>\<open>src/server.js\<close> has neither \<^verbatim>\<open>maxOutputTokens\<close> nor
  \<^verbatim>\<open>temperature\<close>, also when no override is set.\<close>

theorem server_js_generation_config_counterexample:
  "maxOutputTokens (generationConfig (body (hd (snd (callGemini_server_js sampleEnv
       (samplePlatform (Rejected (newError []))) (js ''p''))))))
     = None
   \<and> temperature (generationConfig (body (hd (snd (callGemini_server_js sampleEnv
       (samplePlatform (Rejected (newError []))) (js ''p''))))))
     = None"
  by (simp add: callGemini_server_js_def callGeminiWith_def geminiRequest_def
      generationConfigEmpty_def Let_def)

section \<open>The Local Fallback Responder\<close>

lemma localFallbackWith_text:
  "\<exists>reply \<in> {workoutReply, dietReply, greeting, catchAllReply}.
     localFallbackWith greeting (Some (JString m)) = Inr reply"
  by (cases "m = []") (simp_all add: localFallbackWith_def Let_def)

lemmas regex_defs = testKeywords.simps alternativesAt_def keywordAt_def wordBoundary_def
  optIsWord_def headOpt_def isWordChar_def toLowerCase_def lowerUnit_def
  workoutWords_def dietWords_def greetingWords_def

lemma localFallbackWith_hello: "localFallbackWith greeting (Some (JString (js ''hello''))) = Inr greeting"
  by (simp add: localFallbackWith_def regex_defs js_def)

























section \<open>The route handlers\<close>

text \<open>
  With a key configured and an upstream response that is not \<^verbatim>\<open>ok\<close> and whose body can be
  read: \<^verbatim>\<open>callGemini\<close> fails with the error whose message holds the status and the body
  text; \<^verbatim>\<open>POST /api/explain\<close> (for a request with its code, whose prompt could be built)
  answers 502 with an \<^verbatim>\<open>error\<close> and a \<^verbatim>\<open>detail\<close> field; \<^verbatim>\<open>POST /api/chat\<close>, for a message that
  is a non-empty string, answers 200 with the reply of \<^verbatim>\<open>localFallback\<close> for that message,
  the source \<^verbatim>\<open>fallback\<close> and an \<^verbatim>\<open>error\<close> field. Each handler has sent exactly one request
  upstream.
\<close>

theorem upstream_non_2xx_surfaced_once:
  assumes key: "envTruthy (GEMINI_API_KEY env)"
    and bad: "\<not> ok res"
    and readable: "res_text res = Inr errorText"
  shows
    "(fetch rt (upstreamRequest env rt p) = Resolved res \<longrightarrow>
        callGemini env rt p =
          (Inl (upstreamError (status res) errorText), [upstreamRequest env rt p]))
     \<and> (truthy (getProp (js ''code'') (bodyOrEmpty reqE)) \<longrightarrow>
        explainPromptFor rt reqE = Inr pe \<longrightarrow>
        fetch rt (upstreamRequest env rt pe) = Resolved res \<longrightarrow>
        explain env rt reqE =
          (jsonResponse 502
             [(js ''error'', JString (js ''Gemini API error'')),
              (js ''detail'', JString (js ''Error: Gemini API error '' @ decimal (status res)
                                        @ js '': '' @ errorText))],
           [upstreamRequest env rt pe]))
     \<and> (getProp (js ''message'') (bodyOrEmpty reqC) = Some (JString m) \<longrightarrow> m \<noteq> [] \<longrightarrow>
        fetch rt (upstreamRequest env rt (chatPrompt m)) = Resolved res \<longrightarrow>
        (\<exists>reply. localFallback (Some (JString m)) = Inr reply \<and>
           chat env rt reqC =
             (jsonResponse 200
                [(js ''reply'', JString reply),
                 (js ''source'', JString (js ''fallback'')),
                 (js ''error'', JString (js ''Error: Gemini API error '' @ decimal (status res)
                                          @ js '': '' @ errorText))],
              [upstreamRequest env rt (chatPrompt m)])))"
proof (intro conjI impI)
  assume "fetch rt (upstreamRequest env rt p) = Resolved res"
  then show "callGemini env rt p =
      (Inl (upstreamError (status res) errorText), [upstreamRequest env rt p])"
    using bad readable by (rule callGemini_not_ok)
next
  assume code: "truthy (getProp (js ''code'') (bodyOrEmpty reqE))"
    and prompt: "explainPromptFor rt reqE = Inr pe"
    and up: "fetch rt (upstreamRequest env rt pe) = Resolved res"
  have call: "callGemini env rt pe =
      (Inl (upstreamError (status res) errorText), [upstreamRequest env rt pe])"
    using up bad readable by (rule callGemini_not_ok)
  show "explain env rt reqE =
      (jsonResponse 502
         [(js ''error'', JString (js ''Gemini API error'')),
          (js ''detail'', JString (js ''Error: Gemini API error '' @ decimal (status res)
                                    @ js '': '' @ errorText))],
       [upstreamRequest env rt pe])"
    using code key prompt
    by (simp add: explain_def explainTry_def explainPromptFor_def Let_def call
        errorToString_upstreamError)
next
  assume msg: "getProp (js ''message'') (bodyOrEmpty reqC) = Some (JString m)"
    and ne: "m \<noteq> []"
    and up: "fetch rt (upstreamRequest env rt (chatPrompt m)) = Resolved res"
  have call: "callGemini env rt (chatPrompt m) =
      (Inl (upstreamError (status res) errorText), [upstreamRequest env rt (chatPrompt m)])"
    using up bad readable by (rule callGemini_not_ok)
  obtain reply where reply: "localFallback (Some (JString m)) = Inr reply"
    using localFallbackWith_text[of greetingReply m] unfolding localFallback_def by blast
  have "chat env rt reqC =
      (jsonResponse 200
         [(js ''reply'', JString reply),
          (js ''source'', JString (js ''fallback'')),
          (js ''error'', JString (js ''Error: Gemini API error '' @ decimal (status res)
                                   @ js '': '' @ errorText))],
       [upstreamRequest env rt (chatPrompt m)])"
    using msg ne key reply
    by (simp add: chat_def chatWith_def interpolate_def Let_def call errorToString_upstreamError)
  with reply show "\<exists>reply. localFallback (Some (JString m)) = Inr reply \<and>
      chat env rt reqC =
        (jsonResponse 200
           [(js ''reply'', JString reply),
            (js ''source'', JString (js ''fallback'')),
            (js ''error'', JString (js ''Error: Gemini API error '' @ decimal (status res)
                                     @ js '': '' @ errorText))],
         [upstreamRequest env rt (chatPrompt m)])"
    by blast
qed

theorem upstream_non_2xx_surfaced_once_witness:
  "fst (callGemini sampleEnv (samplePlatform (Resolved overQuota)) (js ''p''))
     = Inl (upstreamError 429 (js ''quota''))
   \<and> statusCode (fst (explain sampleEnv (samplePlatform (Resolved overQuota))
        (Some (JObject [(js ''code'', JString (js ''x=1''))])))) = 502
   \<and> length (snd (explain sampleEnv (samplePlatform (Resolved overQuota))
        (Some (JObject [(js ''code'', JString (js ''x=1''))])))) = 1
   \<and> statusCode (fst (chat sampleEnv (samplePlatform (Resolved overQuota))
        (Some (JObject [(js ''message'', JString (js ''hello''))])))) = 200
   \<and> length (snd (chat sampleEnv (samplePlatform (Resolved overQuota))
        (Some (JObject [(js ''message'', JString (js ''hello''))])))) = 1"
proof -
  let ?rt = "samplePlatform (Resolved overQuota)"
  let ?reqE = "Some (JObject [(js ''code'', JString (js ''x=1''))])"
  let ?reqC = "Some (JObject [(js ''message'', JString (js ''hello''))])"
  let ?pe = "js ''You are a helpful code explainer. The user requested mode=''
      @ js ''summary'' @ js '' and language='' @ js ''auto'' @ js ''. Provide a clear ''
      @ js ''summary'' @ js '' of the code below.\<newline>\<newline>Code:\<newline>'' @ js ''x=1''"
  have key: "envTruthy (GEMINI_API_KEY sampleEnv)"
    by (simp add: sampleEnv_def envTruthy_def js_def)
  have bad: "\<not> ok overQuota" by (simp add: ok_def overQuota_def)
  have readable: "res_text overQuota = Inr (js ''quota'')" by (simp add: overQuota_def)
  have up: "fetch ?rt q = Resolved overQuota" for q by (simp add: samplePlatform_def)
  have code: "truthy (getProp (js ''code'') (bodyOrEmpty ?reqE))"
    by (simp add: getProp_def bodyOrEmpty_def js_def)
  have pe: "explainPromptFor ?rt ?reqE = Inr ?pe"
    by (simp add: explainPromptFor_def explainPrompt_def interpolate_def withDefault_def
        getProp_def bodyOrEmpty_def Let_def, simp add: js_def)
  have msg: "getProp (js ''message'') (bodyOrEmpty ?reqC) = Some (JString (js ''hello''))"
    by (simp add: getProp_def bodyOrEmpty_def)
  have ne: "js ''hello'' \<noteq> []" by (simp add: js_def)
  have st: "status overQuota = 429" by (simp add: overQuota_def)
  from upstream_non_2xx_surfaced_once[OF key bad readable,
      where rt = ?rt and p = "js ''p''" and reqE = ?reqE and pe = ?pe and reqC = ?reqC
        and m = "js ''hello''"]
    up code pe msg ne st
  show ?thesis by (auto simp: jsonResponse_def)
qed

text \<open>A message that is truthy and not a string passes the test \<^verbatim>\<open>!message\<close> and goes
  upstream inside the prompt. When that call fails, \<^verbatim>\<open>localFallback\<close> throws inside the
  \<^verbatim>\<open>catch\<close>, since the value has no \<^verbatim>\<open>toLowerCase\<close>, and the outer \<^verbatim>\<open>catch\<close> answers 500.\<close>

lemma chat_upstream_error_non_text_message:
  assumes "envTruthy (GEMINI_API_KEY env)"
    and "getProp (js ''message'') (bodyOrEmpty reqBody) = Some v"
    and "truthy (Some v)"
    and "\<forall>s. v \<noteq> JString s"
    and "interpolate rt v = Inr m"
    and "fetch rt (upstreamRequest env rt (chatPrompt m)) = Resolved res"
    and "\<not> ok res"
    and "res_text res = Inr errorText"
  shows "chat env rt reqBody = (serverError, [upstreamRequest env rt (chatPrompt m)])"
proof -
  have "localFallback (Some v) = Inl (notAFunction (js ''toLowerCase''))"
    using assms(3,4) by (cases v) (simp_all add: localFallback_def localFallbackWith_def)
  then show ?thesis
    using assms(1,2,3,5) callGemini_not_ok[OF assms(6,7,8)]
    by (simp add: chat_def chatWith_def Let_def)
qed

text \<open>
  Claim C3. The request \<^verbatim>\<open>{"message": 5}\<close> to \<^verbatim>\<open>POST /api/chat\<close>, with a key configured and an
  upstream that answers 429 with the body \<^verbatim>\<open>quota\<close>. \<^verbatim>\<open>callGemini\<close> sends one request and
  fails with the error that carries the status and the body text, as the claim says. The
  \<^verbatim>\<open>catch\<close> of the handler, under the comment \<^verbatim>\<open>fallback to local rule-based if Gemini fails\<close>,
  calls \<^verbatim>\<open>localFallback(5)\<close>; that call throws, and the handler answers 500 with the error
  \<^verbatim>\<open>Server error\<close>, where the claim has 200 with the reply of the responder, the source
  \<^verbatim>\<open>fallback\<close> and an \<^verbatim>\<open>error\<close> field. The request \<^verbatim>\<open>{"message": "5"}\<close>, which leads to the same
  prompt and the same upstream request, gets the response of the claim.
\<close>

theorem chat_number_message_upstream_error:
  "callGemini sampleEnv overQuotaPlatform (chatPrompt (js ''5''))
     = (Inl (upstreamError 429 (js ''quota'')),
        [upstreamRequest sampleEnv overQuotaPlatform (chatPrompt (js ''5''))])
   \<and> localFallback (Some (JNumber (Finite 5))) = Inl (notAFunction (js ''toLowerCase''))
   \<and> chat sampleEnv overQuotaPlatform (Some (JObject [(js ''message'', JNumber (Finite 5))]))
     = (jsonResponse 500 [(js ''error'', JString (js ''Server error''))],
        [upstreamRequest sampleEnv overQuotaPlatform (chatPrompt (js ''5''))])
   \<and> chat sampleEnv overQuotaPlatform (Some (JObject [(js ''message'', JString (js ''5''))]))
     = (jsonResponse 200
          [(js ''reply'', JString catchAllReply),
           (js ''source'', JString (js ''fallback'')),
           (js ''error'', JString (js ''Error: Gemini API error 429: quota''))],
        [upstreamRequest sampleEnv overQuotaPlatform (chatPrompt (js ''5''))])"
proof -
  let ?rt = overQuotaPlatform
  have key: "envTruthy (GEMINI_API_KEY sampleEnv)"
    by (simp add: sampleEnv_def envTruthy_def js_def)
  have call: "callGemini sampleEnv ?rt (chatPrompt (js ''5''))
     = (Inl (upstreamError 429 (js ''quota'')),
        [upstreamRequest sampleEnv ?rt (chatPrompt (js ''5''))])"
    using callGemini_not_ok[of ?rt sampleEnv "chatPrompt (js ''5'')" overQuota "js ''quota''"]
    by (simp add: overQuotaPlatform_def samplePlatform_def overQuota_def ok_def)
  have number: "localFallback (Some (JNumber (Finite 5))) = Inl (notAFunction (js ''toLowerCase''))"
    by (simp add: localFallback_def localFallbackWith_def)
  have string: "localFallback (Some (JString (js ''5''))) = Inr catchAllReply"
    by (simp add: localFallback_def localFallbackWith_def regex_defs js_def)
  have shown: "errorToString (upstreamError 429 (js ''quota''))
      = js ''Error: Gemini API error 429: quota''"
    by (simp add: errorToString_def upstreamError_def newError_def, simp add: js_def)
  have five: "js ''5'' \<noteq> []" by (simp add: js_def)
  have failing: "chat sampleEnv ?rt (Some (JObject [(js ''message'', JNumber (Finite 5))]))
     = (jsonResponse 500 [(js ''error'', JString (js ''Server error''))],
        [upstreamRequest sampleEnv ?rt (chatPrompt (js ''5''))])"
    using key
    by (simp add: chat_def chatWith_def interpolate_def getProp_def bodyOrEmpty_def Let_def
        overQuotaPlatform_def sampleToString_def call[unfolded overQuotaPlatform_def]
        number serverError_def)
  have sibling: "chat sampleEnv ?rt (Some (JObject [(js ''message'', JString (js ''5''))]))
     = (jsonResponse 200
          [(js ''reply'', JString catchAllReply),
           (js ''source'', JString (js ''fallback'')),
           (js ''error'', JString (js ''Error: Gemini API error 429: quota''))],
        [upstreamRequest sampleEnv ?rt (chatPrompt (js ''5''))])"
    using key five
    by (simp add: chat_def chatWith_def interpolate_def getProp_def bodyOrEmpty_def Let_def
        call string shown)
  from call number failing sibling show ?thesis by blast
qed

text \<open>The example of the specification for the stream route: a short answer
  \<^verbatim>\<open>"A. B. C."\<close> is written as one line.\<close>

lemma explainStream_short_answer:
  "explainStream sampleEnv
     (samplePlatform (Resolved \<lparr> status = 200, res_text = Inr [],
        res_json = Inr (JObject [(js ''candidates'',
          JArray [JObject [(js ''content'',
            JObject [(js ''parts'',
              JArray [JObject [(js ''text'', JString (js ''A. B. C.''))]])])]])]) \<rparr>))
     (Some (JObject [(js ''code'', JString (js ''x=1''))]))
   = (\<lparr> statusCode = 200, headers = streamHeaders,
        payload = TextPayload [js ''A. B. C.\<newline>''] \<rparr>,
      [upstreamRequest sampleEnv
         (samplePlatform (Resolved \<lparr> status = 200, res_text = Inr [],
            res_json = Inr (JObject [(js ''candidates'',
              JArray [JObject [(js ''content'',
                JObject [(js ''parts'',
                  JArray [JObject [(js ''text'', JString (js ''A. B. C.''))]])])]])]) \<rparr>))
         (js ''You are a helpful code explainer. The user requested mode=summary and ''
          @ js ''language=auto. Provide a clear summary of the code below.''
          @ js ''\<newline>\<newline>Code:\<newline>x=1'')])"
  by (simp add: explainStream_def explainPrompt_def interpolate_def withDefault_def getProp_def
      getIndex0_def bodyOrEmpty_def envTruthy_def sampleEnv_def samplePlatform_def
      callGemini_def callGeminiWith_def upstreamRequest_def ok_def extractText_def
      partTextOf_def Let_def,
      simp add: chunkText_def chunkStep_def trim_def isWhiteSpace_def isTerminator_def
      maxChunk_def js_def)

text \<open>
  Claim C4, as amended. For every request to \<^verbatim>\<open>POST /api/explain\<close> whose \<^verbatim>\<open>code\<close> field is
  truthy (a non-empty string, for one), when no key is configured the response is the
  400 that says the key is not set; it is not built by \<^verbatim>\<open>naiveExplain\<close>, and no request
  is sent upstream.
\<close>

theorem explain_requires_key:
  assumes "truthy (getProp (js ''code'') (bodyOrEmpty reqBody))"
    and "\<not> envTruthy (GEMINI_API_KEY env)"
  shows "explain env rt reqBody = (keyNotSetResponse, [])"
  using assms by (simp add: explain_def Let_def)

theorem explain_requires_key_witness:
  "explain noKeyEnv (samplePlatform (Rejected (newError [])))
     (Some (JObject [(js ''code'', JString (js ''x=1''))])) = (keyNotSetResponse, [])"
  by (rule explain_requires_key) (simp_all add: getProp_def bodyOrEmpty_def envTruthy_def noKeyEnv_def js_def)

text \<open>A request can include a \<^verbatim>\<open>code\<close> field that is the empty string; the response is
  then the 400 of the missing field, not the one of the missing key.\<close>

theorem explain_empty_code_counterexample:
  "explain noKeyEnv (samplePlatform (Rejected (newError [])))
     (Some (JObject [(js ''code'', JString [])])) = (noCodeResponse, [])
   \<and> noCodeResponse \<noteq> keyNotSetResponse"
  by (simp add: explain_def getProp_def bodyOrEmpty_def Let_def noCodeResponse_def
      keyNotSetResponse_def jsonResponse_def js_def)

text \<open>
  Claim C6. The request \<^verbatim>\<open>{"message":"hello"}\<close> to \<^verbatim>\<open>POST /api/chat\<close> without a key gets
  status 200, the source \<^verbatim>\<open>local-fallback\<close> and no upstream request from both servers. In
  the server with the three routes the reply is the greeting that starts with \<^verbatim>\<open>Hey\<close>, a
  space and the em dash U+2014. In \<^verbatim>\<open>src/server.js\<close> the reply holds the three code units
  U+00E2 U+20AC U+201D where the dash should be.
\<close>

theorem chat_hello_without_key:
  "chat noKeyEnv rt (Some (JObject [(js ''message'', JString (js ''hello''))])) =
     (jsonResponse 200
        [(js ''reply'', JString (js ''Hey '' @ [0x2014]
             @ js '' I'm FitBuddy. Ask me for workout plans, diet tips, or motivation.'')),
         (js ''source'', JString (js ''local-fallback''))], [])
   \<and> chat_server_js noKeyEnv rt (Some (JObject [(js ''message'', JString (js ''hello''))])) =
     (jsonResponse 200
        [(js ''reply'', JString (js ''Hey '' @ [0xE2, 0x20AC, 0x201D]
             @ js '' I'm FitBuddy. Ask me for workout plans, diet tips, or motivation.'')),
         (js ''source'', JString (js ''local-fallback''))], [])"
  by (simp add: chat_def chat_server_js_def chatWith_def localFallback_def
      localFallback_server_js_def localFallbackWith_hello greetingReply_def
      greetingReply_server_js_def getProp_def bodyOrEmpty_def envTruthy_def noKeyEnv_def
      Let_def, simp add: js_def)

lemma explainTry_returns: "\<exists>response. fst (explainTry env rt prompt) = Returned response"
  by (cases "callGemini env rt prompt"; cases "fst (callGemini env rt prompt)")
     (auto simp: explainTry_def)

lemma js_gemini_neq: "js ''gemini'' \<noteq> js ''local-fallback''"
  by (simp add: js_def)

text \<open>
  Claim C8. The \<^verbatim>\<open>try\<close> statement of \<^verbatim>\<open>POST /api/explain\<close> always ends with a \<^verbatim>\<open>return\<close>, so
  the statements behind it, \<^verbatim>\<open>naiveExplain\<close> among them, never run. Every response of the
  handler is the 400 of the missing code, the 400 of the missing key, the 500 of the
  outer \<^verbatim>\<open>catch\<close>, the 200 with the source \<^verbatim>\<open>gemini\<close>, or the 502 of the upstream error; none
  has the source \<^verbatim>\<open>local-fallback\<close>.
\<close>

theorem naiveExplain_unreachable:
  "(\<exists>response. fst (explainTry env rt prompt) = Returned response)
   \<and> (fst (explain env rt reqBody) = noCodeResponse
      \<or> fst (explain env rt reqBody) = keyNotSetResponse
      \<or> fst (explain env rt reqBody) = serverError
      \<or> (\<exists>explanation. fst (explain env rt reqBody) =
            jsonResponse 200
              [(js ''explanation'', explanation), (js ''source'', JString (js ''gemini''))])
      \<or> (\<exists>detail. fst (explain env rt reqBody) =
            jsonResponse 502
              [(js ''error'', JString (js ''Gemini API error'')),
               (js ''detail'', JString detail)]))
   \<and> (\<forall>explanation. fst (explain env rt reqBody) \<noteq>
          jsonResponse 200
            [(js ''explanation'', explanation),
             (js ''source'', JString (js ''local-fallback''))])"
proof -
  have shape: "fst (explain env rt reqBody) = noCodeResponse
      \<or> fst (explain env rt reqBody) = keyNotSetResponse
      \<or> fst (explain env rt reqBody) = serverError
      \<or> (\<exists>explanation. fst (explain env rt reqBody) =
            jsonResponse 200
              [(js ''explanation'', explanation), (js ''source'', JString (js ''gemini''))])
      \<or> (\<exists>detail. fst (explain env rt reqBody) =
            jsonResponse 502
              [(js ''error'', JString (js ''Gemini API error'')),
               (js ''detail'', JString detail)])"
    by (auto simp: explain_def explainTry_def Let_def split: sum.splits prod.splits)
  have "fst (explain env rt reqBody) \<noteq>
          jsonResponse 200
            [(js ''explanation'', explanation),
             (js ''source'', JString (js ''local-fallback''))]" for explanation
    using shape js_gemini_neq
    by (auto simp: noCodeResponse_def keyNotSetResponse_def serverError_def jsonResponse_def)
  with shape explainTry_returns show ?thesis by blast
qed

text \<open>
  Claim C10. The required field is tested for being falsy: a \<^verbatim>\<open>message\<close> that is the empty
  string gets from \<^verbatim>\<open>POST /api/chat\<close> the same 400 as no \<^verbatim>\<open>message\<close> at all, and a \<^verbatim>\<open>code\<close>
  that is the empty string gets from \<^verbatim>\<open>POST /api/explain\<close> and \<^verbatim>\<open>POST /api/explain/stream\<close>
  the same 400 as no \<^verbatim>\<open>code\<close> at all; no request is sent upstream.
\<close>

theorem empty_required_field_is_missing:
  "(getProp (js ''message'') (bodyOrEmpty reqBody) = Some (JString []) \<longrightarrow>
      chat env rt reqBody = (noMessageResponse, []))
   \<and> (getProp (js ''message'') (bodyOrEmpty reqBody) = None \<longrightarrow>
      chat env rt reqBody = (noMessageResponse, []))
   \<and> (getProp (js ''code'') (bodyOrEmpty reqBody) = Some (JString []) \<longrightarrow>
      explain env rt reqBody = (noCodeResponse, [])
      \<and> explainStream env rt reqBody = (noCodeResponse, []))
   \<and> (getProp (js ''code'') (bodyOrEmpty reqBody) = None \<longrightarrow>
      explain env rt reqBody = (noCodeResponse, [])
      \<and> explainStream env rt reqBody = (noCodeResponse, []))"
  by (simp add: chat_def chatWith_def explain_def explainStream_def Let_def)

theorem empty_required_field_is_missing_witness:
  "chat sampleEnv (samplePlatform (Rejected (newError [])))
       (Some (JObject [(js ''message'', JString [])])) = (noMessageResponse, [])
   \<and> chat sampleEnv (samplePlatform (Rejected (newError []))) (Some (JObject []))
       = (noMessageResponse, [])
   \<and> explain sampleEnv (samplePlatform (Rejected (newError [])))
       (Some (JObject [(js ''code'', JString [])])) = (noCodeResponse, [])
   \<and> explainStream sampleEnv (samplePlatform (Rejected (newError []))) None
       = (noCodeResponse, [])"
  using empty_required_field_is_missing[of "Some (JObject [(js ''message'', JString [])])"
      sampleEnv "samplePlatform (Rejected (newError []))"]
    empty_required_field_is_missing[of "Some (JObject [])"
      sampleEnv "samplePlatform (Rejected (newError []))"]
    empty_required_field_is_missing[of "Some (JObject [(js ''code'', JString [])])"
      sampleEnv "samplePlatform (Rejected (newError []))"]
    empty_required_field_is_missing[of None
      sampleEnv "samplePlatform (Rejected (newError []))"]
  by (simp add: getProp_def bodyOrEmpty_def)

end
